theory Spec2Isabelle
  imports Complex_Main
begin

section \<open>Numbers of the language\<close>

text \<open>
  The loan calculator of \<^verbatim>\<open>src/src/components/LoanCalculator.tsx\<close> computes with the
  \<^verbatim>\<open>number\<close> type of TypeScript. A number is \<open>NaN\<close>, one of the two infinities, or a
  finite value; the two zeros are not distinguished (\<open>Fin 0\<close> stands for both, and
  behaves as \<open>+0\<close> where the sign would matter, which is in a division by zero only).

  What the engine does to the exact result of an operation on finite values is a parameter
  of the model, an arithmetic \<open>ar\<close>: \<open>rnd ar\<close> rounds an exact result, to a finite
  value or, on overflow, to an infinity; \<open>pwr ar\<close> is the power function behind
  \<^verbatim>\<open>Math.pow\<close>, whose precision the language leaves to the implementation. A fact stated
  for every \<open>ar\<close> holds whatever the rounding and the power function are.
\<close>

datatype jsnum = NaN | PInf | NInf | Fin real

record arith =
  rnd :: "real \<Rightarrow> jsnum"
  pwr :: "real \<Rightarrow> real \<Rightarrow> jsnum"

text \<open>\<^verbatim>\<open>!x\<close>: a number is falsy when it is \<open>NaN\<close> or zero.\<close>

fun js_not :: "jsnum \<Rightarrow> bool" where
  "js_not NaN = True"
| "js_not (Fin x) = (x = 0)"
| "js_not PInf = False"
| "js_not NInf = False"

text \<open>\<^verbatim>\<open>x < y\<close>, \<^verbatim>\<open>x <= y\<close> and \<^verbatim>\<open>x === y\<close>: false as soon as one side is \<open>NaN\<close>.\<close>

fun js_lt :: "jsnum \<Rightarrow> jsnum \<Rightarrow> bool" where
  "js_lt NaN _ = False"
| "js_lt _ NaN = False"
| "js_lt (Fin x) (Fin y) = (x < y)"
| "js_lt NInf NInf = False"
| "js_lt NInf _ = True"
| "js_lt _ NInf = False"
| "js_lt PInf _ = False"
| "js_lt (Fin x) PInf = True"

fun js_eq :: "jsnum \<Rightarrow> jsnum \<Rightarrow> bool" where
  "js_eq NaN _ = False"
| "js_eq _ NaN = False"
| "js_eq x y = (x = y)"

definition js_le :: "jsnum \<Rightarrow> jsnum \<Rightarrow> bool" where
  "js_le x y = (js_lt x y \<or> js_eq x y)"

text \<open>Unary minus, and the four operations with the special values of IEEE 754.\<close>

fun js_neg :: "jsnum \<Rightarrow> jsnum" where
  "js_neg NaN = NaN"
| "js_neg PInf = NInf"
| "js_neg NInf = PInf"
| "js_neg (Fin x) = Fin (- x)"

fun js_add :: "arith \<Rightarrow> jsnum \<Rightarrow> jsnum \<Rightarrow> jsnum" where
  "js_add ar NaN _ = NaN"
| "js_add ar _ NaN = NaN"
| "js_add ar (Fin x) (Fin y) = rnd ar (x + y)"
| "js_add ar PInf NInf = NaN"
| "js_add ar NInf PInf = NaN"
| "js_add ar PInf _ = PInf"
| "js_add ar NInf _ = NInf"
| "js_add ar (Fin x) y = y"

definition js_sub :: "arith \<Rightarrow> jsnum \<Rightarrow> jsnum \<Rightarrow> jsnum" where
  "js_sub ar x y = js_add ar x (js_neg y)"

text \<open>The sign of a number that is not \<open>NaN\<close>: \<open>1\<close>, \<open>0\<close> or \<open>-1\<close>.\<close>

fun js_sign :: "jsnum \<Rightarrow> int" where
  "js_sign NaN = 0"
| "js_sign PInf = 1"
| "js_sign NInf = - 1"
| "js_sign (Fin x) = (if x < 0 then - 1 else if x = 0 then 0 else 1)"

definition inf_of_sign :: "int \<Rightarrow> jsnum" where
  "inf_of_sign k = (if k = 0 then NaN else if 0 < k then PInf else NInf)"

fun js_mul :: "arith \<Rightarrow> jsnum \<Rightarrow> jsnum \<Rightarrow> jsnum" where
  "js_mul ar NaN _ = NaN"
| "js_mul ar _ NaN = NaN"
| "js_mul ar (Fin x) (Fin y) = rnd ar (x * y)"
| "js_mul ar x y = inf_of_sign (js_sign x * js_sign y)"

fun js_div :: "arith \<Rightarrow> jsnum \<Rightarrow> jsnum \<Rightarrow> jsnum" where
  "js_div ar NaN _ = NaN"
| "js_div ar _ NaN = NaN"
| "js_div ar (Fin x) (Fin y) = (if y = 0 then inf_of_sign (js_sign (Fin x)) else rnd ar (x / y))"
| "js_div ar (Fin x) _ = Fin 0"
| "js_div ar x (Fin y) = inf_of_sign (js_sign x * (if y < 0 then - 1 else 1))"
| "js_div ar _ _ = NaN"

text \<open>\<^verbatim>\<open>Math.max(x, y)\<close>.\<close>

fun js_max :: "jsnum \<Rightarrow> jsnum \<Rightarrow> jsnum" where
  "js_max NaN _ = NaN"
| "js_max _ NaN = NaN"
| "js_max x y = (if js_lt x y then y else x)"

text \<open>
  \<^verbatim>\<open>Math.pow(x, y)\<close>, case by case as the language defines it; only a finite base other
  than \<open>0\<close> with a finite exponent other than \<open>0\<close> is left to \<open>pwr ar\<close>.
\<close>

definition is_integer :: "real \<Rightarrow> bool" where
  "is_integer y = (y = of_int \<lfloor>y\<rfloor>)"

fun js_pow :: "arith \<Rightarrow> jsnum \<Rightarrow> jsnum \<Rightarrow> jsnum" where
  "js_pow ar _ NaN = NaN"
| "js_pow ar NaN (Fin y) = (if y = 0 then Fin 1 else NaN)"
| "js_pow ar PInf (Fin y) = (if y = 0 then Fin 1 else if 0 < y then PInf else Fin 0)"
| "js_pow ar NInf (Fin y) =
     (if y = 0 then Fin 1 else if y < 0 then Fin 0
      else if is_integer y \<and> odd \<lfloor>y\<rfloor> then NInf else PInf)"
| "js_pow ar (Fin x) (Fin y) =
     (if y = 0 then Fin 1
      else if x = 0 then (if 0 < y then Fin 0 else PInf)
      else if x < 0 \<and> \<not> is_integer y then NaN
      else pwr ar x y)"
| "js_pow ar NaN PInf = NaN"
| "js_pow ar (Fin x) PInf = (if 1 < \<bar>x\<bar> then PInf else if \<bar>x\<bar> = 1 then NaN else Fin 0)"
| "js_pow ar _ PInf = PInf"
| "js_pow ar NaN NInf = NaN"
| "js_pow ar (Fin x) NInf = (if 1 < \<bar>x\<bar> then Fin 0 else if \<bar>x\<bar> = 1 then NaN else PInf)"
| "js_pow ar _ NInf = Fin 0"

section \<open>Two arithmetics\<close>

text \<open>
  The rounding of IEEE 754 binary64, to the nearest representable value with ties to the
  even one: a value of magnitude in \<open>[2^E, 2^(E+1))\<close> is rounded to a multiple of
  \<open>2^(E-52)\<close>, a value below \<open>2^(-1022)\<close> to a multiple of \<open>2^(-1074)\<close>, and a value that
  rounds to \<open>2^1024\<close> or more overflows to the infinity of its sign.
\<close>

definition rne :: "real \<Rightarrow> int" where
  "rne x =
     (let f = \<lfloor>x\<rfloor>; d = x - of_int f
      in if d < 1 / 2 then f else if 1 / 2 < d then f + 1 else if even f then f else f + 1)"

definition round_double :: "real \<Rightarrow> jsnum" where
  "round_double x =
     (if x = 0 then Fin 0
      else let e = max (\<lfloor>log 2 \<bar>x\<bar>\<rfloor> - 52) (- 1074);
               v = of_int (rne (x / 2 powi e)) * 2 powi e
           in if 2 powi 1024 \<le> \<bar>v\<bar> then (if 0 < x then PInf else NInf) else Fin v)"

text \<open>The exact power, for an integer exponent without logarithms.\<close>

definition real_power :: "real \<Rightarrow> real \<Rightarrow> real" where
  "real_power x y = (if is_integer y then x powi \<lfloor>y\<rfloor> else x powr y)"

text \<open>
  \<open>exact\<close> rounds nothing: it is the arithmetic of the reals. \<open>binary64\<close> rounds every
  operation as IEEE 754 does; its power is the exact power rounded once. The
  \<^verbatim>\<open>Math.pow\<close> of an engine may differ from that in the last place, where the exact power
  is not representable; it may not where the exact power is representable or overflows.
\<close>

definition exact :: arith where
  "exact = \<lparr>rnd = Fin, pwr = (\<lambda>x y. Fin (real_power x y))\<rparr>"

definition binary64 :: arith where
  "binary64 = \<lparr>rnd = round_double, pwr = (\<lambda>x y. round_double (real_power x y))\<rparr>"

section \<open>The data of the calculator\<close>

record PaymentSchedule =
  paymentNumber :: jsnum
  paymentAmount :: jsnum
  principalAmount :: jsnum
  interestAmount :: jsnum
  remainingBalance :: jsnum

record LoanSummary =
  monthlyPayment :: jsnum
  totalPayments :: jsnum
  totalInterest :: jsnum
  totalAmount :: jsnum

text \<open>
  The two pieces of component state that \<^verbatim>\<open>calculateLoan\<close> writes with
  \<^verbatim>\<open>setPaymentSchedule\<close> and \<^verbatim>\<open>setLoanSummary\<close>; \<open>None\<close> is \<^verbatim>\<open>null\<close>.
\<close>

record component =
  paymentSchedule :: "PaymentSchedule list"
  loanSummary :: "LoanSummary option"

section \<open>calculateLoan\<close>

text \<open>
  The function is modelled from the three parsed values on: \<open>principal0\<close> (the
  \<^verbatim>\<open>principal\<close> of the source) and \<open>annualRate\<close> are what \<^verbatim>\<open>parseFloat\<close> returned,
  \<open>months\<close> is what \<^verbatim>\<open>parseInt\<close> returned: \<open>NaN\<close>, an integer, or an infinity for a
  digit string beyond the range of binary64.

  The guard of line 31.
\<close>

definition rejected :: "jsnum \<Rightarrow> jsnum \<Rightarrow> jsnum \<Rightarrow> bool" where
  "rejected principal0 annualRate months =
     (js_not principal0 \<or> js_not annualRate \<or> js_not months
      \<or> js_le principal0 (Fin 0) \<or> js_lt annualRate (Fin 0) \<or> js_le months (Fin 0))"

text \<open>Lines 37 to 40: the monthly rate and the monthly payment.\<close>

definition monthlyRate_of :: "arith \<Rightarrow> jsnum \<Rightarrow> jsnum" where
  "monthlyRate_of ar annualRate = js_div ar (js_div ar annualRate (Fin 100)) (Fin 12)"

definition monthlyPayment_of :: "arith \<Rightarrow> jsnum \<Rightarrow> jsnum \<Rightarrow> jsnum \<Rightarrow> jsnum" where
  "monthlyPayment_of ar principal0 monthlyRate months =
     (if js_eq monthlyRate (Fin 0)
      then js_div ar principal0 months
      else js_div ar
             (js_mul ar (js_mul ar principal0 monthlyRate)
                (js_pow ar (js_add ar (Fin 1) monthlyRate) months))
             (js_sub ar (js_pow ar (js_add ar (Fin 1) monthlyRate) months) (Fin 1)))"

text \<open>
  Lines 45 to 59: the loop, from the counter \<open>i\<close>, the balance and the schedule built
  so far. It stops after the record whose balance is \<open>0\<close>. The counter is a number as
  every other, and \<^verbatim>\<open>i++\<close> is a rounded addition. The loop need not end: the result
  \<open>None\<close> stands for a call that does not return. The array of records is a list, with
  no bound on its length: the memory of the engine is not modelled.
\<close>

partial_function (option) schedule_loop ::
  "arith \<Rightarrow> jsnum \<Rightarrow> jsnum \<Rightarrow> jsnum \<Rightarrow> jsnum \<Rightarrow> jsnum \<Rightarrow> PaymentSchedule list
   \<Rightarrow> PaymentSchedule list option" where
  "schedule_loop ar months monthlyRate payment i balance schedule =
     (if js_le i months then
        (let interest = js_mul ar balance monthlyRate;
             princ = js_sub ar payment interest;
             balance' = js_max (Fin 0) (js_sub ar balance princ);
             schedule' = schedule @
               [\<lparr>paymentNumber = i, paymentAmount = payment, principalAmount = princ,
                 interestAmount = interest, remainingBalance = balance'\<rparr>]
         in if js_eq balance' (Fin 0) then Some schedule'
            else schedule_loop ar months monthlyRate payment (js_add ar i (Fin 1)) balance'
                   schedule')
      else Some schedule)"

text \<open>Lines 26 to 71, from the parsed values and the state of the component.\<close>

definition calculateLoan ::
  "arith \<Rightarrow> jsnum \<Rightarrow> jsnum \<Rightarrow> jsnum \<Rightarrow> component \<Rightarrow> component option" where
  "calculateLoan ar principal0 annualRate months s =
     (if rejected principal0 annualRate months
      then Some (s\<lparr>paymentSchedule := [], loanSummary := None\<rparr>)
      else
        (let monthlyRate = monthlyRate_of ar annualRate;
             payment = monthlyPayment_of ar principal0 monthlyRate months
         in case schedule_loop ar months monthlyRate payment (Fin 1) principal0 [] of
              None \<Rightarrow> None
            | Some schedule \<Rightarrow>
                (let total = js_mul ar payment months;
                     interest = js_sub ar total principal0
                 in Some (s\<lparr>paymentSchedule := schedule,
                      loanSummary := Some \<lparr>monthlyPayment = payment, totalPayments = total,
                        totalInterest = interest, totalAmount = total\<rparr>\<rparr>))))"

section \<open>Notions of the statements\<close>

text \<open>The record that one iteration of the loop pushes, at counter \<open>i\<close> and balance \<open>balance\<close>.\<close>

definition step_record :: "arith \<Rightarrow> jsnum \<Rightarrow> jsnum \<Rightarrow> jsnum \<Rightarrow> jsnum \<Rightarrow> PaymentSchedule" where
  "step_record ar monthlyRate payment i balance =
     \<lparr>paymentNumber = i, paymentAmount = payment,
      principalAmount = js_sub ar payment (js_mul ar balance monthlyRate),
      interestAmount = js_mul ar balance monthlyRate,
      remainingBalance =
        js_max (Fin 0) (js_sub ar balance (js_sub ar payment (js_mul ar balance monthlyRate)))\<rparr>"

text \<open>
  The arithmetic counts to \<open>n\<close>: \<^verbatim>\<open>i++\<close> is exact on \<open>1, \<dots>, n\<close>. Binary64 counts to every
  \<open>n\<close> below \<open>2^53\<close>.
\<close>

definition counts :: "arith \<Rightarrow> nat \<Rightarrow> bool" where
  "counts ar n = (\<forall>k \<in> {1..n}. rnd ar (real k + 1) = Fin (real k + 1))"

text \<open>
  The schedule in the words of the specification: from the balance, the interest is
  \<open>balance * r\<close>, the principal part \<open>P - interest\<close>, the next balance
  \<open>max(0, balance - principal part)\<close>; one record per period, numbered from \<open>i\<close>, at most
  \<open>left\<close> of them, and none after the record whose balance is \<open>0\<close>. The operations are
  those of the arithmetic \<open>ar\<close>.
\<close>

fun spec_schedule ::
  "arith \<Rightarrow> jsnum \<Rightarrow> jsnum \<Rightarrow> nat \<Rightarrow> nat \<Rightarrow> jsnum \<Rightarrow> PaymentSchedule list" where
  "spec_schedule ar r P 0 i balance = []"
| "spec_schedule ar r P (Suc left) i balance =
     (let interest = js_mul ar balance r;
          princ = js_sub ar P interest;
          balance' = js_max (Fin 0) (js_sub ar balance princ);
          record = \<lparr>paymentNumber = Fin (real i), paymentAmount = P, principalAmount = princ,
            interestAmount = interest, remainingBalance = balance'\<rparr>
      in if js_eq balance' (Fin 0) then [record]
         else record # spec_schedule ar r P left (Suc i) balance')"

text \<open>
  \<open>out\<close> extends \<open>acc\<close> by records of iterations whose starting balances satisfy
  \<open>Inv\<close>.
\<close>

definition extends_by_steps ::
  "arith \<Rightarrow> jsnum \<Rightarrow> jsnum \<Rightarrow> (jsnum \<Rightarrow> bool) \<Rightarrow> PaymentSchedule list
   \<Rightarrow> PaymentSchedule list \<Rightarrow> bool" where
  "extends_by_steps ar r P Inv acc out =
     (\<exists>new. out = acc @ new \<and>
        (\<forall>x \<in> set new. \<exists>j c. Inv c \<and> x = step_record ar r P j c))"




text \<open>The Empty result, and the state of the component before the first call.\<close>

definition is_empty :: "component \<Rightarrow> bool" where
  "is_empty s = (paymentSchedule s = [] \<and> loanSummary s = None)"

definition initial :: component where
  "initial = \<lparr>paymentSchedule = [], loanSummary = None\<rparr>"

text \<open>
  A valid input, in the words of the specification: a positive finite principal, a finite
  annual rate that is at least \<open>0\<close>, a positive integer term.
\<close>

fun finite_positive :: "jsnum \<Rightarrow> bool" where
  "finite_positive (Fin x) = (0 < x)"
| "finite_positive _ = False"

fun finite_nonneg :: "jsnum \<Rightarrow> bool" where
  "finite_nonneg (Fin x) = (0 \<le> x)"
| "finite_nonneg _ = False"

fun positive_integer :: "jsnum \<Rightarrow> bool" where
  "positive_integer (Fin x) = (0 < x \<and> is_integer x)"
| "positive_integer _ = False"

definition spec_valid :: "jsnum \<Rightarrow> jsnum \<Rightarrow> jsnum \<Rightarrow> bool" where
  "spec_valid principal0 annualRate months =
     (finite_positive principal0 \<and> finite_nonneg annualRate \<and> positive_integer months)"

text \<open>What the guard of the code tests instead: positive, or at least \<open>0\<close>, infinity included.\<close>

fun js_positive :: "jsnum \<Rightarrow> bool" where
  "js_positive (Fin x) = (0 < x)"
| "js_positive PInf = True"
| "js_positive _ = False"


text \<open>
  The balance of an annuity loan of \<open>p\<close> at the monthly rate \<open>r\<close> over \<open>n\<close> months after
  \<open>k\<close> payments, in closed form over the reals, and the record of period \<open>i\<close>.
\<close>

definition annuity_balance :: "real \<Rightarrow> real \<Rightarrow> nat \<Rightarrow> nat \<Rightarrow> real" where
  "annuity_balance p r n k = p * ((1 + r) ^ n - (1 + r) ^ k) / ((1 + r) ^ n - 1)"

definition annuity_record :: "real \<Rightarrow> real \<Rightarrow> nat \<Rightarrow> nat \<Rightarrow> PaymentSchedule" where
  "annuity_record p r n i =
     \<lparr>paymentNumber = Fin (real i),
      paymentAmount = Fin (p * r * (1 + r) ^ n / ((1 + r) ^ n - 1)),
      principalAmount =
        Fin (p * r * (1 + r) ^ n / ((1 + r) ^ n - 1) - annuity_balance p r n (i - 1) * r),
      interestAmount = Fin (annuity_balance p r n (i - 1) * r),
      remainingBalance = Fin (annuity_balance p r n i)\<rparr>"

section \<open>The loop\<close>

text \<open>
  The loop of the code and the schedule of the specification. Where the arithmetic counts
  to the term, the loop returns, and what it returns is the schedule in the words of the
  specification (\<open>schedule_loop_refines\<close>). Whatever the term, a loop that returns has
  pushed records of iterations only (\<open>schedule_loop_records\<close>). With a term of
  \<open>+Infinity\<close> and a payment that is \<open>NaN\<close> no balance is ever \<open>0\<close>, and the loop does not
  return (\<open>schedule_loop_never\<close>).
\<close>

lemma schedule_loop_unfold:
  "schedule_loop ar months r P i b acc =
     (if js_le i months then
        (if js_eq (remainingBalance (step_record ar r P i b)) (Fin 0)
         then Some (acc @ [step_record ar r P i b])
         else schedule_loop ar months r P (js_add ar i (Fin 1))
                (remainingBalance (step_record ar r P i b)) (acc @ [step_record ar r P i b]))
      else Some acc)"
  by (subst schedule_loop.simps) (simp add: Let_def step_record_def)

lemma spec_schedule_Suc:
  "spec_schedule ar r P (Suc left) i b =
     (if js_eq (remainingBalance (step_record ar r P (Fin (real i)) b)) (Fin 0)
      then [step_record ar r P (Fin (real i)) b]
      else step_record ar r P (Fin (real i)) b #
        spec_schedule ar r P left (Suc i) (remainingBalance (step_record ar r P (Fin (real i)) b)))"
  by (simp add: Let_def step_record_def)

lemma schedule_loop_refines:
  assumes "counts ar n"
  shows "1 \<le> k \<Longrightarrow> k + left = Suc n \<Longrightarrow>
         schedule_loop ar (Fin (real n)) r P (Fin (real k)) b acc =
           Some (acc @ spec_schedule ar r P left k b)"
proof (induction left arbitrary: k b acc)
  case 0
  then have "\<not> js_le (Fin (real k)) (Fin (real n))" by (simp add: js_le_def)
  then show ?case by (subst schedule_loop_unfold) simp
next
  case (Suc left)
  then have le: "js_le (Fin (real k)) (Fin (real n))" by (auto simp: js_le_def)
  from Suc.prems have "k \<in> {1..n}" by simp
  with assms have "rnd ar (real k + 1) = Fin (real k + 1)" by (simp add: counts_def)
  then have next_i: "js_add ar (Fin (real k)) (Fin 1) = Fin (real (Suc k))"
    by (simp add: add.commute)
  let ?rec = "step_record ar r P (Fin (real k)) b"
  show ?case
  proof (cases "js_eq (remainingBalance ?rec) (Fin 0)")
    case True
    with le show ?thesis
      by (subst schedule_loop_unfold) (simp add: spec_schedule_Suc del: spec_schedule.simps)
  next
    case False
    from Suc.prems have "schedule_loop ar (Fin (real n)) r P (Fin (real (Suc k)))
        (remainingBalance ?rec) (acc @ [?rec]) =
        Some ((acc @ [?rec]) @ spec_schedule ar r P left (Suc k) (remainingBalance ?rec))"
      by (intro Suc.IH) simp_all
    with False le next_i show ?thesis
      by (subst schedule_loop_unfold) (simp add: spec_schedule_Suc del: spec_schedule.simps)
  qed
qed

lemma extends_by_steps_refl: "extends_by_steps ar r P Inv acc acc"
  by (simp add: extends_by_steps_def)

lemma extends_by_steps_last:
  "Inv c \<Longrightarrow> extends_by_steps ar r P Inv acc (acc @ [step_record ar r P j c])"
  unfolding extends_by_steps_def by (rule exI [of _ "[step_record ar r P j c]"]) auto

lemma extends_by_steps_step:
  assumes "extends_by_steps ar r P Inv (acc @ [step_record ar r P j c]) out" and "Inv c"
  shows "extends_by_steps ar r P Inv acc out"
proof -
  from assms(1) obtain new where out: "out = (acc @ [step_record ar r P j c]) @ new"
    and new: "\<forall>x \<in> set new. \<exists>j c. Inv c \<and> x = step_record ar r P j c"
    unfolding extends_by_steps_def by blast
  have "out = acc @ (step_record ar r P j c # new)" using out by simp
  moreover have "\<forall>x \<in> set (step_record ar r P j c # new).
      \<exists>j c. Inv c \<and> x = step_record ar r P j c"
    using new assms(2) by auto
  ultimately show ?thesis unfolding extends_by_steps_def by blast
qed

lemma schedule_loop_records:
  assumes "schedule_loop ar months r P i b acc = Some out"
  shows "Inv b \<Longrightarrow>
         (\<forall>j c. Inv c \<longrightarrow> Inv (remainingBalance (step_record ar r P j c))) \<Longrightarrow>
         extends_by_steps ar r P Inv acc out"
proof -
  have "Inv b \<longrightarrow> (\<forall>j c. Inv c \<longrightarrow> Inv (remainingBalance (step_record ar r P j c))) \<longrightarrow>
      extends_by_steps ar r P Inv acc out"
  proof (rule schedule_loop.raw_induct
      [where P = "\<lambda>ar months r P i b acc out.
         Inv b \<longrightarrow> (\<forall>j c. Inv c \<longrightarrow> Inv (remainingBalance (step_record ar r P j c))) \<longrightarrow>
         extends_by_steps ar r P Inv acc out"])
    show "schedule_loop ar months r P i b acc = Some out" by (rule assms)
  next
    fix loop :: "arith \<Rightarrow> jsnum \<Rightarrow> jsnum \<Rightarrow> jsnum \<Rightarrow> jsnum \<Rightarrow> jsnum \<Rightarrow> PaymentSchedule list
      \<Rightarrow> PaymentSchedule list option"
    fix ar months r P i b acc out
    assume IH: "\<And>ar months r P i b acc out.
        loop ar months r P i b acc = Some out \<Longrightarrow>
        Inv b \<longrightarrow> (\<forall>j c. Inv c \<longrightarrow> Inv (remainingBalance (step_record ar r P j c))) \<longrightarrow>
        extends_by_steps ar r P Inv acc out"
    assume body: "(if js_le i months
        then let interest = js_mul ar b r;
                 princ = js_sub ar P interest;
                 balance' = js_max (Fin 0) (js_sub ar b princ);
                 schedule' = acc @
                   [\<lparr>paymentNumber = i, paymentAmount = P, principalAmount = princ,
                     interestAmount = interest, remainingBalance = balance'\<rparr>]
             in if js_eq balance' (Fin 0) then Some schedule'
                else loop ar months r P (js_add ar i (Fin 1)) balance' schedule'
        else Some acc) = Some out"
    let ?rec = "step_record ar r P i b"
    from body have body': "(if js_le i months
        then if js_eq (remainingBalance ?rec) (Fin 0) then Some (acc @ [?rec])
             else loop ar months r P (js_add ar i (Fin 1)) (remainingBalance ?rec) (acc @ [?rec])
        else Some acc) = Some out"
      by (simp only: Let_def step_record_def PaymentSchedule.simps)
    show "Inv b \<longrightarrow> (\<forall>j c. Inv c \<longrightarrow> Inv (remainingBalance (step_record ar r P j c))) \<longrightarrow>
        extends_by_steps ar r P Inv acc out"
    proof (intro impI)
      assume b: "Inv b"
        and step: "\<forall>j c. Inv c \<longrightarrow> Inv (remainingBalance (step_record ar r P j c))"
      show "extends_by_steps ar r P Inv acc out"
      proof (cases "js_le i months")
        case False
        with body' have "out = acc" by simp
        then show ?thesis by (simp add: extends_by_steps_refl)
      next
        case True
        show ?thesis
        proof (cases "js_eq (remainingBalance ?rec) (Fin 0)")
          case stop: True
          with True body' have "out = acc @ [?rec]" by simp
          with b show ?thesis by (simp add: extends_by_steps_last)
        next
          case False
          with True body'
          have "loop ar months r P (js_add ar i (Fin 1)) (remainingBalance ?rec) (acc @ [?rec])
              = Some out"
            by simp
          from IH [OF this] b step have "extends_by_steps ar r P Inv (acc @ [?rec]) out"
            by blast
          then show ?thesis using b by (rule extends_by_steps_step)
        qed
      qed
    qed
  qed
  then show "Inv b \<Longrightarrow>
      (\<forall>j c. Inv c \<longrightarrow> Inv (remainingBalance (step_record ar r P j c))) \<Longrightarrow>
      extends_by_steps ar r P Inv acc out"
    by blast
qed


lemma calculateLoan_rejected:
  "rejected principal0 annualRate months \<Longrightarrow>
   calculateLoan ar principal0 annualRate months s =
     Some (s\<lparr>paymentSchedule := [], loanSummary := None\<rparr>)"
  by (simp add: calculateLoan_def)

lemma calculateLoan_accepted:
  "\<not> rejected principal0 annualRate months \<Longrightarrow>
   calculateLoan ar principal0 annualRate months s =
     map_option
       (\<lambda>schedule. s\<lparr>paymentSchedule := schedule,
          loanSummary := Some
            \<lparr>monthlyPayment = monthlyPayment_of ar principal0 (monthlyRate_of ar annualRate) months,
             totalPayments =
               js_mul ar (monthlyPayment_of ar principal0 (monthlyRate_of ar annualRate) months)
                 months,
             totalInterest =
               js_sub ar
                 (js_mul ar (monthlyPayment_of ar principal0 (monthlyRate_of ar annualRate) months)
                    months)
                 principal0,
             totalAmount =
               js_mul ar (monthlyPayment_of ar principal0 (monthlyRate_of ar annualRate) months)
                 months\<rparr>\<rparr>)
       (schedule_loop ar months (monthlyRate_of ar annualRate)
          (monthlyPayment_of ar principal0 (monthlyRate_of ar annualRate) months)
          (Fin 1) principal0 [])"
  by (simp add: calculateLoan_def Let_def split: option.split)

lemma schedule_loop_returns:
  assumes "counts ar n"
  shows "schedule_loop ar (Fin (real n)) r P (Fin 1) b [] = Some (spec_schedule ar r P n 1 b)"
  using schedule_loop_refines [OF assms, of 1 n r P b "[]"] by simp

lemma spec_schedule_pos:
  "0 < left \<Longrightarrow>
   spec_schedule ar r P left i b =
     (if js_eq (remainingBalance (step_record ar r P (Fin (real i)) b)) (Fin 0)
      then [step_record ar r P (Fin (real i)) b]
      else step_record ar r P (Fin (real i)) b #
        spec_schedule ar r P (left - 1) (Suc i)
          (remainingBalance (step_record ar r P (Fin (real i)) b)))"
  by (cases left) (simp_all add: spec_schedule_Suc del: spec_schedule.simps)

section \<open>The guard and the result\<close>

text \<open>
  The guard rejects exactly the inputs of which one is \<open>NaN\<close>, zero or negative. A rejected
  input gives the Empty result; an accepted one gives a summary and the schedule of the
  loop, when the loop returns.
\<close>

lemma rejected_iff:
  "rejected principal0 annualRate months \<longleftrightarrow>
   \<not> (js_positive principal0 \<and> js_positive annualRate \<and> js_positive months)"
  by (cases principal0; cases annualRate; cases months)
     (auto simp: rejected_def js_le_def)



lemma calculateLoan_returns:
  assumes "\<not> rejected principal0 annualRate (Fin (real n))" and "counts ar n"
  shows "calculateLoan ar principal0 annualRate (Fin (real n)) s =
     Some (s\<lparr>paymentSchedule :=
         spec_schedule ar (monthlyRate_of ar annualRate)
           (monthlyPayment_of ar principal0 (monthlyRate_of ar annualRate) (Fin (real n)))
           n 1 principal0,
       loanSummary := Some
         \<lparr>monthlyPayment =
            monthlyPayment_of ar principal0 (monthlyRate_of ar annualRate) (Fin (real n)),
          totalPayments =
            js_mul ar (monthlyPayment_of ar principal0 (monthlyRate_of ar annualRate) (Fin (real n)))
              (Fin (real n)),
          totalInterest =
            js_sub ar
              (js_mul ar
                 (monthlyPayment_of ar principal0 (monthlyRate_of ar annualRate) (Fin (real n)))
                 (Fin (real n)))
              principal0,
          totalAmount =
            js_mul ar (monthlyPayment_of ar principal0 (monthlyRate_of ar annualRate) (Fin (real n)))
              (Fin (real n))\<rparr>\<rparr>)"
  unfolding calculateLoan_accepted [OF assms(1)] schedule_loop_returns [OF assms(2)] by simp

lemma calculateLoan_records_inv:
  assumes "calculateLoan ar principal0 annualRate months s = Some e"
    and "x \<in> set (paymentSchedule e)"
    and "Inv principal0"
    and "\<forall>j c. Inv c \<longrightarrow>
           Inv (remainingBalance (step_record ar (monthlyRate_of ar annualRate)
             (monthlyPayment_of ar principal0 (monthlyRate_of ar annualRate) months) j c))"
  shows "\<exists>j c. Inv c \<and> x = step_record ar (monthlyRate_of ar annualRate)
           (monthlyPayment_of ar principal0 (monthlyRate_of ar annualRate) months) j c"
proof (cases "rejected principal0 annualRate months")
  case True
  with assms(1) have "paymentSchedule e = []" by (auto simp: calculateLoan_rejected)
  with assms(2) show ?thesis by simp
next
  case False
  let ?r = "monthlyRate_of ar annualRate"
  let ?P = "monthlyPayment_of ar principal0 ?r months"
  from assms(1) False obtain out
    where out: "schedule_loop ar months ?r ?P (Fin 1) principal0 [] = Some out"
      and e: "paymentSchedule e = out"
    by (auto simp: calculateLoan_accepted)
  from out assms(3,4) have "extends_by_steps ar ?r ?P Inv [] out"
    by (rule schedule_loop_records)
  with assms(2) e show ?thesis by (auto simp: extends_by_steps_def)
qed

lemma calculateLoan_records:
  assumes "calculateLoan ar principal0 annualRate months s = Some e"
    and "x \<in> set (paymentSchedule e)"
  shows "\<exists>j c. x = step_record ar (monthlyRate_of ar annualRate)
           (monthlyPayment_of ar principal0 (monthlyRate_of ar annualRate) months) j c"
  using calculateLoan_records_inv [OF assms, of "\<lambda>_. True"] by simp


lemma summary_is_nominal:
  assumes "\<not> rejected principal0 annualRate (Fin (real n))" and "counts ar n"
  shows "\<exists>e sm. calculateLoan ar principal0 annualRate (Fin (real n)) s = Some e \<and>
           loanSummary e = Some sm \<and>
           totalPayments sm = js_mul ar (monthlyPayment sm) (Fin (real n)) \<and>
           totalInterest sm = js_sub ar (totalPayments sm) principal0 \<and>
           totalAmount sm = totalPayments sm"
  unfolding calculateLoan_returns [OF assms] by simp

lemma balance_is_clamped:
  assumes "calculateLoan ar principal0 annualRate months s = Some e"
    and "x \<in> set (paymentSchedule e)"
  shows "remainingBalance x = NaN \<or> js_le (Fin 0) (remainingBalance x)"
proof -
  have clamp: "js_max (Fin 0) y = NaN \<or> js_le (Fin 0) (js_max (Fin 0) y)" for y
    by (cases y) (auto simp: js_le_def)
  from calculateLoan_records [OF assms] obtain y where "remainingBalance x = js_max (Fin 0) y"
    by (auto simp: step_record_def)
  with clamp [of y] show ?thesis by simp
qed






section \<open>The shape of the schedule\<close>

text \<open>
  The schedule has at most as many records as the term has months, numbered from \<open>1\<close>
  by position; it is shorter only when it ends with a balance of \<open>0\<close>, and no record before
  the last has a balance of \<open>0\<close>.
\<close>

lemma spec_schedule_length: "length (spec_schedule ar r P left i b) \<le> left"
  by (induction left arbitrary: i b) (auto simp: Let_def)

lemma spec_schedule_nonempty: "0 < left \<Longrightarrow> spec_schedule ar r P left i b \<noteq> []"
  by (cases left) (auto simp: Let_def)

lemma spec_schedule_paymentNumber:
  "k < length (spec_schedule ar r P left i b) \<Longrightarrow>
   paymentNumber (spec_schedule ar r P left i b ! k) = Fin (real (i + k))"
proof (induction left arbitrary: i b k)
  case 0
  then show ?case by simp
next
  case (Suc left)
  let ?rec = "step_record ar r P (Fin (real i)) b"
  have num: "paymentNumber ?rec = Fin (real i)" by (simp add: step_record_def)
  show ?case
  proof (cases "js_eq (remainingBalance ?rec) (Fin 0)")
    case True
    with Suc.prems num show ?thesis by (simp add: spec_schedule_Suc del: spec_schedule.simps)
  next
    case False
    show ?thesis
    proof (cases k)
      case 0
      with False num show ?thesis by (simp add: spec_schedule_Suc del: spec_schedule.simps)
    next
      case (Suc k')
      with Suc.prems False
      have "k' < length (spec_schedule ar r P left (Suc i) (remainingBalance ?rec))"
        by (simp add: spec_schedule_Suc del: spec_schedule.simps)
      then have "paymentNumber (spec_schedule ar r P left (Suc i) (remainingBalance ?rec) ! k')
          = Fin (real (Suc i + k'))"
        by (rule Suc.IH)
      with False Suc show ?thesis by (simp add: spec_schedule_Suc del: spec_schedule.simps)
    qed
  qed
qed

lemma spec_schedule_early:
  "length (spec_schedule ar r P left i b) < left \<Longrightarrow>
   spec_schedule ar r P left i b \<noteq> [] \<and>
   js_eq (remainingBalance (last (spec_schedule ar r P left i b))) (Fin 0)"
proof (induction left arbitrary: i b)
  case 0
  then show ?case by simp
next
  case (Suc left)
  let ?rec = "step_record ar r P (Fin (real i)) b"
  show ?case
  proof (cases "js_eq (remainingBalance ?rec) (Fin 0)")
    case True
    then show ?thesis by (simp add: spec_schedule_Suc del: spec_schedule.simps)
  next
    case False
    with Suc.prems
    have "length (spec_schedule ar r P left (Suc i) (remainingBalance ?rec)) < left"
      by (simp add: spec_schedule_Suc del: spec_schedule.simps)
    then have "spec_schedule ar r P left (Suc i) (remainingBalance ?rec) \<noteq> [] \<and>
        js_eq (remainingBalance (last (spec_schedule ar r P left (Suc i) (remainingBalance ?rec))))
          (Fin 0)"
      by (rule Suc.IH)
    with False show ?thesis by (simp add: spec_schedule_Suc del: spec_schedule.simps)
  qed
qed

lemma spec_schedule_before_last:
  "Suc k < length (spec_schedule ar r P left i b) \<Longrightarrow>
   \<not> js_eq (remainingBalance (spec_schedule ar r P left i b ! k)) (Fin 0)"
proof (induction left arbitrary: i b k)
  case 0
  then show ?case by simp
next
  case (Suc left)
  let ?rec = "step_record ar r P (Fin (real i)) b"
  show ?case
  proof (cases "js_eq (remainingBalance ?rec) (Fin 0)")
    case True
    with Suc.prems show ?thesis by (simp add: spec_schedule_Suc del: spec_schedule.simps)
  next
    case False
    show ?thesis
    proof (cases k)
      case 0
      with False show ?thesis by (simp add: spec_schedule_Suc del: spec_schedule.simps)
    next
      case (Suc k')
      with Suc.prems False
      have "Suc k' < length (spec_schedule ar r P left (Suc i) (remainingBalance ?rec))"
        by (simp add: spec_schedule_Suc del: spec_schedule.simps)
      then have "\<not> js_eq (remainingBalance
          (spec_schedule ar r P left (Suc i) (remainingBalance ?rec) ! k')) (Fin 0)"
        by (rule Suc.IH)
      with False Suc show ?thesis by (simp add: spec_schedule_Suc del: spec_schedule.simps)
    qed
  qed
qed

lemma schedule_shape:
  assumes "\<not> rejected principal0 annualRate (Fin (real n))" and "counts ar n"
  shows "\<exists>e sched. calculateLoan ar principal0 annualRate (Fin (real n)) s = Some e \<and>
           sched = paymentSchedule e \<and>
           length sched \<le> n \<and>
           (\<forall>k < length sched. paymentNumber (sched ! k) = Fin (real (k + 1))) \<and>
           (length sched < n \<longrightarrow>
              sched \<noteq> [] \<and> js_eq (remainingBalance (last sched)) (Fin 0)) \<and>
           (\<forall>k. Suc k < length sched \<longrightarrow> \<not> js_eq (remainingBalance (sched ! k)) (Fin 0))"
  unfolding calculateLoan_returns [OF assms]
  using spec_schedule_length spec_schedule_paymentNumber spec_schedule_early
    spec_schedule_before_last
  by (simp add: add.commute)

section \<open>Rounding to binary64\<close>

text \<open>
  How \<open>round_double\<close> is evaluated (\<open>round_double_near\<close>), how far it is from its argument
  (\<open>round_double_error\<close>), where it underflows to \<open>0\<close> (\<open>round_double_tiny\<close>) and overflows
  to \<open>+Infinity\<close> (\<open>round_double_overflow\<close>), and that it is exact on the integers up to
  \<open>2^53\<close>, so that binary64 counts to every term below \<open>2^53\<close>.
\<close>

lemma rne_near:
  assumes "\<bar>y - of_int k\<bar> < 1 / 2"
  shows "rne y = k"
proof (cases "of_int k \<le> y")
  case True
  with assms have "\<lfloor>y\<rfloor> = k" by (intro floor_unique) auto
  with assms True show ?thesis by (simp add: rne_def Let_def)
next
  case False
  with assms have f: "\<lfloor>y\<rfloor> = k - 1" by (intro floor_unique) auto
  from False assms have "1 / 2 < y - of_int (k - 1)" by auto
  with f show ?thesis by (simp add: rne_def Let_def)
qed

lemma rne_error: "\<bar>of_int (rne q) - q\<bar> \<le> 1 / 2"
  by (auto simp: rne_def Let_def abs_le_iff)

lemma two_powr_int: "(2::real) powr (of_int e) = 2 powi e"
  by (rule powr_real_of_int' [of 2, simplified])

lemma floor_log2:
  fixes x :: real
  assumes "2 powi e \<le> x" and "x < 2 powi (e + 1)"
  shows "\<lfloor>log 2 x\<rfloor> = e"
proof -
  have "(0::real) < 2 powi e" by simp
  with assms(1) have pos: "0 < x" by linarith
  from assms have "2 powr (of_int e) \<le> x" and "x < 2 powr (of_int (e + 1))"
    by (simp_all only: two_powr_int)
  then have "of_int e \<le> log 2 x" and "log 2 x < of_int e + 1"
    using pos by (simp_all add: le_log_iff log_less_iff)
  then show ?thesis by (intro floor_unique) auto
qed

lemma floor_log2_bounds:
  fixes x :: real
  assumes "0 < x"
  shows "2 powi \<lfloor>log 2 x\<rfloor> \<le> x" and "x < 2 powi (\<lfloor>log 2 x\<rfloor> + 1)"
proof -
  have x: "2 powr (log 2 x) = x" using assms by simp
  have "(2::real) powr (of_int \<lfloor>log 2 x\<rfloor>) \<le> 2 powr (log 2 x)"
    by (subst powr_le_cancel_iff) simp_all
  then show "2 powi \<lfloor>log 2 x\<rfloor> \<le> x" by (simp only: two_powr_int x)
  have "log 2 x < of_int (\<lfloor>log 2 x\<rfloor> + 1)" by (simp; linarith)
  then have "(2::real) powr (log 2 x) < 2 powr (of_int (\<lfloor>log 2 x\<rfloor> + 1))"
    by (subst powr_less_cancel_iff) simp_all
  then show "x < 2 powi (\<lfloor>log 2 x\<rfloor> + 1)" by (simp only: two_powr_int x)
qed

lemma two_powi_less_D:
  assumes "(2::real) powi a < 2 powi b"
  shows "a < b"
proof (rule ccontr)
  assume "\<not> a < b"
  then have "(2::real) powi b \<le> 2 powi a" by (intro power_int_increasing) simp_all
  with assms show False by simp
qed

lemma round_double_near:
  assumes "2 powi e \<le> \<bar>x\<bar>" and "\<bar>x\<bar> < 2 powi (e + 1)" and "- 1022 \<le> e" and "e \<le> 1022"
    and "\<bar>x - of_int k * 2 powi (e - 52)\<bar> < 2 powi (e - 53)"
  shows "round_double x = Fin (of_int k * 2 powi (e - 52))"
proof -
  have "(0::real) < 2 powi e" by simp
  with assms(1) have "0 < \<bar>x\<bar>" by linarith
  then have nz: "x \<noteq> 0" by simp
  have fl: "\<lfloor>log 2 \<bar>x\<bar>\<rfloor> = e" using assms(1,2) by (rule floor_log2)
  from assms(3) have mx: "max (e - 52) (- 1074) = e - 52" by simp
  have u: "(0::real) < 2 powi (e - 52)" by simp
  have half: "(2::real) powi (e - 53) = 2 powi (e - 52) / 2"
    by (simp add: power_int_diff)
  have "\<bar>x / 2 powi (e - 52) - of_int k\<bar> = \<bar>x - of_int k * 2 powi (e - 52)\<bar> / 2 powi (e - 52)"
    using u by (simp add: field_simps)
  also have "\<dots> < 1 / 2"
    using assms(5) u unfolding half by (simp add: field_simps)
  finally have k: "rne (x / 2 powi (e - 52)) = k" by (rule rne_near)
  have "(2::real) powi (e - 53) \<le> 2 powi (e + 1)"
    by (intro power_int_increasing) simp_all
  with assms(2,5) have "\<bar>of_int k * 2 powi (e - 52)\<bar> < 2 * (2::real) powi (e + 1)" by linarith
  also have "\<dots> = 2 powi (e + 2)" by (simp add: power_int_add)
  also have "\<dots> \<le> 2 powi 1024" using assms(4) by (intro power_int_increasing) simp_all
  finally have "\<not> (2::real) powi 1024 \<le> \<bar>of_int k * 2 powi (e - 52)\<bar>" by simp
  with nz fl mx k show ?thesis by (simp add: round_double_def Let_def)
qed

lemma round_double_0: "round_double 0 = Fin 0"
  by (simp add: round_double_def)


lemma round_double_tiny:
  assumes "\<bar>x\<bar> < 2 powi (- 1075)"
  shows "round_double x = Fin 0"
proof (cases "x = 0")
  case True
  then show ?thesis by (simp add: round_double_0)
next
  case False
  then have pos: "0 < \<bar>x\<bar>" by simp
  have "2 powi \<lfloor>log 2 \<bar>x\<bar>\<rfloor> \<le> \<bar>x\<bar>" using pos by (rule floor_log2_bounds)
  with assms have "(2::real) powi \<lfloor>log 2 \<bar>x\<bar>\<rfloor> < 2 powi (- 1075)" by linarith
  then have "\<lfloor>log 2 \<bar>x\<bar>\<rfloor> < - 1075" by (rule two_powi_less_D)
  then have "\<lfloor>log 2 \<bar>x\<bar>\<rfloor> - 52 \<le> - 1074" by linarith
  then have mx: "max (\<lfloor>log 2 \<bar>x\<bar>\<rfloor> - 52) (- 1074) = - 1074" by (rule max_absorb2)
  have "(2::real) powi (- 1075) = 2 powi (- 1074) / 2" by (simp add: power_int_minus)
  with assms have "\<bar>x\<bar> / 2 powi (- 1074) < 1 / 2" by (simp add: field_simps)
  then have "\<bar>x / 2 powi (- 1074) - of_int 0\<bar> < 1 / 2" by simp
  then have "rne (x / 2 powi (- 1074)) = 0" by (rule rne_near)
  with False mx show ?thesis by (simp add: round_double_def Let_def)
qed

lemma round_double_normal:
  assumes "2 powi (- 1022) \<le> \<bar>y\<bar>"
  shows "\<exists>v. \<bar>v - y\<bar> \<le> 2 powi (- 53) * \<bar>y\<bar> \<and>
           round_double y = (if 2 powi 1024 \<le> \<bar>v\<bar> then (if 0 < y then PInf else NInf) else Fin v)"
proof -
  define E where "E = \<lfloor>log 2 \<bar>y\<bar>\<rfloor>"
  have "(0::real) < 2 powi (- 1022)" by simp
  with assms have pos: "0 < \<bar>y\<bar>" by linarith
  then have nz: "y \<noteq> 0" by simp
  have lo: "2 powi E \<le> \<bar>y\<bar>" and hi: "\<bar>y\<bar> < 2 powi (E + 1)"
    unfolding E_def using pos by (rule floor_log2_bounds)+
  from assms hi have "(2::real) powi (- 1022) < 2 powi (E + 1)" by linarith
  then have "- 1022 < E + 1" by (rule two_powi_less_D)
  then have mx: "max (E - 52) (- 1074) = E - 52" by simp
  let ?u = "(2::real) powi (E - 52)"
  let ?v = "of_int (rne (y / ?u)) * ?u"
  have u: "0 < ?u" by simp
  have "\<bar>?v - y\<bar> = \<bar>of_int (rne (y / ?u)) - y / ?u\<bar> * ?u"
    using u by (simp add: field_simps abs_mult [symmetric])
  also have "\<dots> \<le> 1 / 2 * ?u"
    using rne_error [of "y / ?u"] u by (intro mult_right_mono) simp_all
  also have "\<dots> = 2 powi (- 53) * 2 powi E"
    by (simp add: power_int_diff power_int_minus field_simps)
  also have "\<dots> \<le> 2 powi (- 53) * \<bar>y\<bar>"
    using lo by (intro mult_left_mono) simp_all
  finally have err: "\<bar>?v - y\<bar> \<le> 2 powi (- 53) * \<bar>y\<bar>" .
  have "round_double y = (if 2 powi 1024 \<le> \<bar>?v\<bar> then (if 0 < y then PInf else NInf) else Fin ?v)"
    using nz mx by (simp add: round_double_def Let_def E_def)
  with err show ?thesis by blast
qed


lemma round_double_lower:
  assumes "2 powi (- 1022) \<le> x"
  shows "round_double x = PInf \<or> (\<exists>v. round_double x = Fin v \<and> x / 2 \<le> v)"
proof -
  have "(0::real) < 2 powi (- 1022)" by simp
  with assms have pos: "0 < x" by linarith
  with assms have "2 powi (- 1022) \<le> \<bar>x\<bar>" by simp
  from round_double_normal [OF this] obtain v
    where err: "\<bar>v - x\<bar> \<le> 2 powi (- 53) * \<bar>x\<bar>"
      and rd: "round_double x = (if 2 powi 1024 \<le> \<bar>v\<bar> then (if 0 < x then PInf else NInf) else Fin v)"
    by blast
  have "(2::real) powi (- 53) \<le> 1 / 2" by (simp add: power_int_minus field_simps)
  then have "2 powi (- 53) * \<bar>x\<bar> \<le> 1 / 2 * \<bar>x\<bar>" by (intro mult_right_mono) simp_all
  with err have "\<bar>v - x\<bar> \<le> 1 / 2 * \<bar>x\<bar>" by linarith
  with pos have "x / 2 \<le> v" by (simp only: abs_le_iff abs_of_pos) linarith
  with rd pos show ?thesis by auto
qed

lemma round_double_nonzero:
  assumes "2 powi (- 1074) \<le> \<bar>x\<bar>"
  shows "round_double x \<noteq> Fin 0"
proof -
  have "(0::real) < 2 powi (- 1074)" by simp
  with assms have nz: "x \<noteq> 0" by auto
  define e where "e = max (\<lfloor>log 2 \<bar>x\<bar>\<rfloor> - 52) (- 1074)"
  have rn: "rne (x / 2 powi e) \<noteq> 0"
  proof
    assume z: "rne (x / 2 powi e) = 0"
    have "\<bar>of_int (rne (x / 2 powi e)) - x / 2 powi e\<bar> \<le> 1 / 2" by (rule rne_error)
    with z have half: "\<bar>x\<bar> / 2 powi e \<le> 1 / 2" by simp
    have u: "(0::real) < 2 powi e" by simp
    from half u have small: "\<bar>x\<bar> \<le> 2 powi e / 2" by (simp add: field_simps)
    show False
    proof (cases "\<lfloor>log 2 \<bar>x\<bar>\<rfloor> - 52 \<le> - 1074")
      case True
      then have "e = - 1074" by (simp add: e_def)
      with small assms show False by simp
    next
      case False
      then have e: "e = \<lfloor>log 2 \<bar>x\<bar>\<rfloor> - 52" by (simp add: e_def)
      from nz have "2 powi \<lfloor>log 2 \<bar>x\<bar>\<rfloor> \<le> \<bar>x\<bar>" by (intro floor_log2_bounds) simp
      moreover have "(2::real) powi e \<le> 2 powi \<lfloor>log 2 \<bar>x\<bar>\<rfloor>"
        unfolding e by (intro power_int_increasing) simp_all
      ultimately have "2 powi e \<le> \<bar>x\<bar>" by linarith
      with small u show False by simp
    qed
  qed
  have "of_int (rne (x / 2 powi e)) * (2::real) powi e \<noteq> 0" using rn by simp
  with nz show ?thesis by (simp add: round_double_def Let_def e_def [symmetric])
qed

lemma round_double_of_nat:
  assumes "1 \<le> k" and "k \<le> 2 ^ 53"
  shows "round_double (real k) = Fin (real k)"
proof -
  define E where "E = \<lfloor>log 2 (real k)\<rfloor>"
  from assms(1) have pos: "0 < real k" by simp
  have lo: "2 powi E \<le> real k" and hi: "real k < 2 powi (E + 1)"
    unfolding E_def using pos by (rule floor_log2_bounds)+
  from assms(1) have "(2::real) powi 0 \<le> real k" by simp
  with hi have "(2::real) powi 0 < 2 powi (E + 1)" by linarith
  then have E0: "0 \<le> E" using two_powi_less_D [of 0 "E + 1"] by simp
  from assms(2) have "real k \<le> 2 ^ 53" by (metis of_nat_le_iff of_nat_numeral of_nat_power)
  then have "real k < 2 powi 54" by simp
  with lo have "(2::real) powi E < 2 powi 54" by linarith
  then have E53: "E \<le> 53" using two_powi_less_D [of E 54] by simp
  obtain j :: int where j: "of_int j * (2::real) powi (E - 52) = real k"
  proof (cases "E \<le> 52")
    case True
    have "(2::real) ^ nat (52 - E) * 2 powi (E - 52) = 2 powi (52 - E) * 2 powi (E - 52)"
      using True by (simp add: power_int_def)
    also have "\<dots> = 1" by (simp add: power_int_add [symmetric])
    finally have "of_int (int k * 2 ^ nat (52 - E)) * (2::real) powi (E - 52) = real k"
      by (simp add: mult.assoc)
    then show ?thesis by (rule that)
  next
    case False
    with E53 have E: "E = 53" by simp
    from lo have "(2::real) ^ 53 \<le> real k" unfolding E by simp
    with \<open>real k \<le> 2 ^ 53\<close> have "real k = 2 ^ 53" by simp
    then have "of_int (2 ^ 52) * (2::real) powi (E - 52) = real k" unfolding E by simp
    then show ?thesis by (rule that)
  qed
  have "round_double (real k) = Fin (of_int j * 2 powi (E - 52))"
  proof (rule round_double_near)
    show "2 powi E \<le> \<bar>real k\<bar>" using lo by simp
    show "\<bar>real k\<bar> < 2 powi (E + 1)" using hi by simp
    show "- 1022 \<le> E" using E0 by simp
    show "E \<le> 1022" using E53 by simp
    show "\<bar>real k - of_int j * 2 powi (E - 52)\<bar> < 2 powi (E - 53)" by (simp add: j)
  qed
  then show ?thesis by (simp only: j)
qed

lemma binary64_counts:
  assumes "n < 2 ^ 53"
  shows "counts binary64 n"
  unfolding counts_def
proof
  fix k assume "k \<in> {1..n}"
  with assms have "1 \<le> Suc k" and "Suc k \<le> 2 ^ 53" by simp_all
  then have "round_double (real (Suc k)) = Fin (real (Suc k))" by (rule round_double_of_nat)
  then show "rnd binary64 (real k + 1) = Fin (real k + 1)"
    by (simp add: binary64_def add.commute)
qed

lemma exact_counts: "counts exact n"
  by (simp add: counts_def exact_def)

lemma rnd_binary64: "rnd binary64 = round_double"
  by (simp add: binary64_def)

lemma pwr_binary64: "pwr binary64 x y = round_double (real_power x y)"
  by (simp add: binary64_def)

lemma round_double_numeral:
  "numeral k \<le> (2::nat) ^ 53 \<Longrightarrow> round_double (numeral k) = Fin (numeral k)"
  using round_double_of_nat [of "numeral k"] by simp

lemma round_double_1: "round_double 1 = Fin 1"
  using round_double_of_nat [of 1] by simp

lemma floor_le_rne: "\<lfloor>q\<rfloor> \<le> rne q"
  by (simp add: rne_def Let_def)

lemma round_double_overflow:
  assumes "2 powi 1024 \<le> x"
  shows "round_double x = PInf"
proof -
  have "(0::real) < 2 powi 1024" by simp
  with assms have pos: "0 < x" by linarith
  define E where "E = \<lfloor>log 2 \<bar>x\<bar>\<rfloor>"
  from pos have lo: "2 powi E \<le> x" and hi: "x < 2 powi (E + 1)"
    using floor_log2_bounds [of x] by (simp_all add: E_def)
  from assms hi have "(2::real) powi 1024 < 2 powi (E + 1)" by linarith
  then have "1024 < E + 1" by (rule two_powi_less_D)
  then have E: "1024 \<le> E" by simp
  then have mx: "max (E - 52) (- 1074) = E - 52" by simp
  have u: "(0::real) < 2 powi (E - 52)" by simp
  have split: "(2::real) powi E = 2 ^ 52 * 2 powi (E - 52)"
    using power_int_add [of "2::real" 52 "E - 52"] by simp
  with lo u have "(2::real) ^ 52 \<le> x / 2 powi (E - 52)"
    by (simp add: pos_le_divide_eq)
  then have "of_int (2 ^ 52) \<le> x / 2 powi (E - 52)" by simp
  then have "2 ^ 52 \<le> \<lfloor>x / 2 powi (E - 52)\<rfloor>" by (simp only: le_floor_iff)
  with floor_le_rne [of "x / 2 powi (E - 52)"]
  have "2 ^ 52 \<le> rne (x / 2 powi (E - 52))" by linarith
  then have "(2::real) ^ 52 \<le> of_int (rne (x / 2 powi (E - 52)))"
    using of_int_le_iff [of "2 ^ 52" "rne (x / 2 powi (E - 52))", where ?'a = real] by simp
  with u have "(2::real) ^ 52 * 2 powi (E - 52)
      \<le> of_int (rne (x / 2 powi (E - 52))) * 2 powi (E - 52)"
    by (simp only: mult_le_cancel_right_pos)
  with split have v: "(2::real) powi E \<le> of_int (rne (x / 2 powi (E - 52))) * 2 powi (E - 52)"
    by simp
  have "(2::real) powi 1024 \<le> 2 powi E" using E by (intro power_int_increasing) simp_all
  with v have big: "(2::real) powi 1024 \<le> of_int (rne (x / 2 powi (E - 52))) * 2 powi (E - 52)"
    by linarith
  have "(0::real) \<le> 2 powi 1024" by simp
  with big have "(2::real) powi 1024
      \<le> \<bar>of_int (rne (x / 2 powi (E - 52))) * 2 powi (E - 52)\<bar>"
    by linarith
  then have v': "(2 powi 1024 \<le> \<bar>of_int (rne (x / 2 powi (E - 52))) * (2::real) powi (E - 52)\<bar>)
      = True"
    by simp
  from pos have nz: "(x = 0) = False" and gt: "(0 < x) = True" by simp_all
  show ?thesis
    unfolding round_double_def Let_def E_def [symmetric] mx v' nz gt by simp
qed

lemma pwr_binary64_overflow: "pwr binary64 2 1024 = PInf"
  unfolding pwr_binary64
  by (rule round_double_overflow) (simp add: real_power_def is_integer_def)

section \<open>Exact arithmetic\<close>

text \<open>
  Over the reals the payment is the annuity formula, the balance after \<open>k\<close> payments is
  \<open>annuity_balance p r n k\<close>, which decreases strictly to \<open>0\<close> at \<open>k = n\<close>, and the schedule
  has one record for every month of the term.
\<close>

lemma rnd_exact: "rnd exact x = Fin x"
  by (simp add: exact_def)

lemma is_integer_of_nat: "is_integer (real n)"
  by (simp add: is_integer_def)

lemma real_power_of_nat: "real_power x (real n) = x ^ n"
  by (simp add: real_power_def is_integer_of_nat)

lemma pwr_exact: "pwr exact x (real n) = Fin (x ^ n)"
  by (simp add: exact_def real_power_of_nat)

lemma monthlyRate_exact: "monthlyRate_of exact (Fin a) = Fin (a / 100 / 12)"
  by (simp add: monthlyRate_of_def rnd_exact)

lemma one_less_pow: "0 < r \<Longrightarrow> 0 < n \<Longrightarrow> 1 < (1 + r :: real) ^ n"
  by simp

lemma monthlyPayment_exact:
  assumes "0 < r" and "0 < n"
  shows "monthlyPayment_of exact (Fin p) (Fin r) (Fin (real n)) =
         Fin (p * r * (1 + r) ^ n / ((1 + r) ^ n - 1))"
proof -
  from assms have "1 < (1 + r) ^ n" by (simp add: one_less_pow)
  then have nz: "(1 + r) ^ n \<noteq> 1" by simp
  from assms have r: "js_eq (Fin r) (Fin 0) = False" by simp
  have base: "js_add exact (Fin 1) (Fin r) = Fin (1 + r)" by (simp add: rnd_exact)
  from assms have "1 + r \<noteq> 0" and "real n \<noteq> 0" by simp_all
  then have pw: "js_pow exact (Fin (1 + r)) (Fin (real n)) = Fin ((1 + r) ^ n)"
    using assms(1) by (simp add: pwr_exact)
  have den: "js_sub exact (Fin ((1 + r) ^ n)) (Fin 1) = Fin ((1 + r) ^ n - 1)"
    by (simp add: js_sub_def rnd_exact)
  have num: "js_mul exact (js_mul exact (Fin p) (Fin r)) (Fin ((1 + r) ^ n))
      = Fin (p * r * (1 + r) ^ n)"
    by (simp add: rnd_exact)
  have quot: "js_div exact (Fin (p * r * (1 + r) ^ n)) (Fin ((1 + r) ^ n - 1))
      = Fin (p * r * (1 + r) ^ n / ((1 + r) ^ n - 1))"
    using nz by (simp add: rnd_exact)
  show ?thesis
    unfolding monthlyPayment_of_def r base pw den num quot by simp
qed

lemma step_record_exact:
  "step_record exact (Fin r) (Fin P) i (Fin b) =
     \<lparr>paymentNumber = i, paymentAmount = Fin P, principalAmount = Fin (P - b * r),
      interestAmount = Fin (b * r), remainingBalance = Fin (max 0 (b - (P - b * r)))\<rparr>"
  by (simp add: step_record_def js_sub_def rnd_exact max_def)

lemma balance_step_algebra:
  fixes D :: real
  assumes "D \<noteq> 0"
  shows "p * (X - Q) / D - (p * r * X / D - p * (X - Q) / D * r) = p * (X - Q * (1 + r)) / D"
  using assms by (simp add: field_simps)

lemma annuity_balance_step:
  assumes "0 < r" and "0 < n"
  shows "annuity_balance p r n k
           - (p * r * (1 + r) ^ n / ((1 + r) ^ n - 1) - annuity_balance p r n k * r)
         = annuity_balance p r n (Suc k)"
proof -
  from assms have "1 < (1 + r) ^ n" by (simp add: one_less_pow)
  then have nz: "(1 + r) ^ n - 1 \<noteq> 0" by simp
  show ?thesis
    unfolding annuity_balance_def
    using balance_step_algebra [OF nz, of p "(1 + r) ^ n" "(1 + r) ^ k" r]
    by (simp add: mult.commute)
qed

lemma annuity_balance_pos:
  assumes "0 < p" and "0 < r" and "k < n"
  shows "0 < annuity_balance p r n k"
proof -
  from assms have "1 < (1 + r) ^ n" by (simp add: one_less_pow)
  moreover from assms have "(1 + r) ^ k < (1 + r) ^ n"
    by (simp add: power_strict_increasing)
  ultimately show ?thesis
    using assms(1) by (simp add: annuity_balance_def)
qed

lemma annuity_balance_end: "annuity_balance p r n n = 0"
  by (simp add: annuity_balance_def)

lemma annuity_balance_start:
  assumes "0 < r" and "0 < n"
  shows "annuity_balance p r n 0 = p"
proof -
  from assms have "1 < (1 + r) ^ n" by (simp add: one_less_pow)
  then have "(1 + r) ^ n - 1 \<noteq> 0" by simp
  then show ?thesis by (simp add: annuity_balance_def)
qed

lemma annuity_balance_decreasing:
  assumes "0 < p" and "0 < r" and "0 < n"
  shows "annuity_balance p r n (Suc k) < annuity_balance p r n k"
proof -
  from assms have "1 < (1 + r) ^ n" by (simp add: one_less_pow)
  moreover from assms have "(1 + r) ^ k < (1 + r) ^ Suc k"
    by (simp add: power_strict_increasing)
  ultimately show ?thesis
    using assms(1) by (simp add: annuity_balance_def divide_strict_right_mono)
qed

lemma annuity_balance_nonneg:
  assumes "0 < p" and "0 < r" and "k \<le> n"
  shows "0 \<le> annuity_balance p r n k"
proof (cases "k = n")
  case True
  then show ?thesis by (simp add: annuity_balance_end)
next
  case False
  with assms(3) have "k < n" by simp
  then have "0 < annuity_balance p r n k" by (rule annuity_balance_pos [OF assms(1,2)])
  then show ?thesis by simp
qed

lemma spec_schedule_annuity:
  assumes "0 < p" and "0 < r"
  shows "1 \<le> k \<Longrightarrow> k + left = Suc n \<Longrightarrow>
         spec_schedule exact (Fin r) (Fin (p * r * (1 + r) ^ n / ((1 + r) ^ n - 1))) left k
           (Fin (annuity_balance p r n (k - 1)))
         = map (annuity_record p r n) [k..<k + left]"
proof (induction left arbitrary: k)
  case 0
  then show ?case by simp
next
  case (Suc left)
  let ?P = "p * r * (1 + r) ^ n / ((1 + r) ^ n - 1)"
  let ?b = "annuity_balance p r n (k - 1)"
  from Suc.prems have n: "0 < n" and kn: "k \<le> n" and suc: "Suc (k - 1) = k" by simp_all
  have step: "?b - (?P - ?b * r) = annuity_balance p r n k"
    using annuity_balance_step [OF assms(2) n, of p "k - 1"] suc by simp
  have nonneg: "0 \<le> annuity_balance p r n k"
    using kn by (rule annuity_balance_nonneg [OF assms])
  then have mx: "max 0 (annuity_balance p r n k) = annuity_balance p r n k" by simp
  have rec: "step_record exact (Fin r) (Fin ?P) (Fin (real k)) (Fin ?b) = annuity_record p r n k"
    unfolding step_record_exact step annuity_record_def mx by simp
  have bal: "remainingBalance (annuity_record p r n k) = Fin (annuity_balance p r n (Suc k - 1))"
    by (simp add: annuity_record_def)
  show ?case
  proof (cases "k = n")
    case True
    then have "js_eq (remainingBalance (annuity_record p r n k)) (Fin 0)"
      by (simp add: annuity_record_def annuity_balance_end)
    moreover from True Suc.prems have "left = 0" by simp
    ultimately show ?thesis
      unfolding spec_schedule_Suc rec by simp
  next
    case False
    with kn have "k < n" by simp
    then have "0 < annuity_balance p r n k" by (rule annuity_balance_pos [OF assms])
    then have nz: "\<not> js_eq (remainingBalance (annuity_record p r n k)) (Fin 0)"
      by (simp add: annuity_record_def)
    have rest: "spec_schedule exact (Fin r) (Fin ?P) left (Suc k)
          (Fin (annuity_balance p r n (Suc k - 1)))
        = map (annuity_record p r n) [Suc k..<Suc k + left]"
      using Suc.prems by (intro Suc.IH) simp_all
    have "spec_schedule exact (Fin r) (Fin ?P) (Suc left) k (Fin ?b)
        = annuity_record p r n k # map (annuity_record p r n) [Suc k..<Suc k + left]"
      unfolding spec_schedule_Suc rec using nz by (simp only: if_False bal rest)
    also have "\<dots> = map (annuity_record p r n) [k..<k + Suc left]"
      by (subst (2) upt_rec) simp
    finally show ?thesis .
  qed
qed

lemma calculateLoan_exact:
  fixes p a :: real
  assumes "0 < p" and "0 < a" and "0 < n"
  shows "calculateLoan exact (Fin p) (Fin a) (Fin (real n)) s =
     Some \<lparr>paymentSchedule = map (annuity_record p (a / 100 / 12) n) [1..<Suc n],
       loanSummary = Some
        \<lparr>monthlyPayment =
           Fin (p * (a / 100 / 12) * (1 + a / 100 / 12) ^ n / ((1 + a / 100 / 12) ^ n - 1)),
         totalPayments =
           Fin (p * (a / 100 / 12) * (1 + a / 100 / 12) ^ n / ((1 + a / 100 / 12) ^ n - 1)
                * real n),
         totalInterest =
           Fin (p * (a / 100 / 12) * (1 + a / 100 / 12) ^ n / ((1 + a / 100 / 12) ^ n - 1)
                * real n - p),
         totalAmount =
           Fin (p * (a / 100 / 12) * (1 + a / 100 / 12) ^ n / ((1 + a / 100 / 12) ^ n - 1)
                * real n)\<rparr>\<rparr>"
proof -
  let ?r = "a / 100 / 12"
  from assms have r: "0 < ?r" by simp
  from assms have acc: "\<not> rejected (Fin p) (Fin a) (Fin (real n))"
    by (simp add: rejected_def js_le_def)
  have rate: "monthlyRate_of exact (Fin a) = Fin ?r" by (rule monthlyRate_exact)
  have pay: "monthlyPayment_of exact (Fin p) (Fin ?r) (Fin (real n))
      = Fin (p * ?r * (1 + ?r) ^ n / ((1 + ?r) ^ n - 1))"
    using r assms(3) by (rule monthlyPayment_exact)
  have start: "Fin p = Fin (annuity_balance p ?r n (1 - 1))"
    using annuity_balance_start [OF r assms(3), of p] by simp
  have loop: "spec_schedule exact (Fin ?r) (Fin (p * ?r * (1 + ?r) ^ n / ((1 + ?r) ^ n - 1))) n 1
        (Fin p) = map (annuity_record p ?r n) [1..<Suc n]"
    unfolding start using spec_schedule_annuity [OF assms(1) r, of 1 n n] by simp
  show ?thesis
    unfolding calculateLoan_returns [OF acc exact_counts] rate pay loop
    by (cases s) (simp add: js_sub_def rnd_exact)
qed

lemma exact_balances:
  fixes p a :: real
  assumes "0 < p" and "0 < a" and "0 < n"
  shows "\<exists>e. calculateLoan exact (Fin p) (Fin a) (Fin (real n)) s = Some e \<and>
           length (paymentSchedule e) = n \<and>
           (\<forall>k < n. remainingBalance (paymentSchedule e ! k) =
              Fin (annuity_balance p (a / 100 / 12) n (Suc k)))"
  unfolding calculateLoan_exact [OF assms]
  by (simp add: annuity_record_def del: upt_Suc)

lemma example_exact:
  "calculateLoan exact (Fin 300) (Fin 1200) (Fin 2) s =
     Some \<lparr>paymentSchedule =
       [\<lparr>paymentNumber = Fin 1, paymentAmount = Fin 400, principalAmount = Fin 100,
          interestAmount = Fin 300, remainingBalance = Fin 200\<rparr>,
        \<lparr>paymentNumber = Fin 2, paymentAmount = Fin 400, principalAmount = Fin 200,
          interestAmount = Fin 200, remainingBalance = Fin 0\<rparr>],
       loanSummary = Some \<lparr>monthlyPayment = Fin 400, totalPayments = Fin 800,
         totalInterest = Fin 500, totalAmount = Fin 800\<rparr>\<rparr>"
  using calculateLoan_exact [of 300 1200 2 s]
  by (simp add: annuity_record_def annuity_balance_def upt_rec)

section \<open>Runs in binary64\<close>

text \<open>
  The results of six calls, evaluated operation by operation. Every rounding is a lemma of
  its own: the exact result of the operation, and the binary64 value nearest to it.

  \<^item> 1000 at 12% over 1 month: the payment is \<open>1009.9999999999991\<close> and the one balance is
    \<open>2^-40\<close>.
  \<^item> 1000 at \<open>825 / 2^51\<close> % over 4 months: the third balance is clamped to \<open>0\<close>, and the
    schedule has 3 records.
  \<^item> 1200 at \<open>2^-1074\<close> % (the least positive number, \<^verbatim>\<open>5e-324\<close>) over 12 months: the
    monthly rate underflows to \<open>0\<close>.
  \<^item> 7 at 2400% over 40 months: the first two balances.
  \<^item> 1000 at 1200% over 1024 months: \<open>2^1024\<close> overflows, and the payment is \<open>NaN\<close>.
  \<^item> 1000 at 12% over a term of \<open>+Infinity\<close>: the payment is \<open>NaN\<close>, and the call does not
    return.

  Four of the calls compute a power. With the exponent \<open>1\<close> and for \<open>2^1024\<close>, which
  overflows, a power function agrees with the correctly rounded one; \<open>(1 + 2^-52)^4\<close> is
  less than \<open>2^-101\<close> above the representable \<open>1 + 2^-50\<close>; \<open>3^40\<close> is not representable, and
  the run of 7 at 2400% is that of an engine whose power is correctly rounded there (with the
  neighbour below, the payment and the balances are the same).
\<close>

lemma one_month_1: "round_double (3 / 25) = Fin (1080863910568919 / 9007199254740992)"
proof -
  have "round_double (3 / 25) = Fin (of_int 8646911284551352 * 2 powi (-4 - 52))"
    by (rule round_double_near) simp_all
  then show ?thesis by simp
qed

lemma one_month_2: "round_double (1080863910568919 / 108086391056891904) = Fin (5764607523034235 /
    576460752303423488)"
proof -
  have "round_double (1080863910568919 / 108086391056891904) = Fin (of_int 5764607523034235 * 2 powi
      (-7 - 52))"
    by (rule round_double_near) simp_all
  then show ?thesis by simp
qed

lemma one_month_3: "round_double (582225359826457723 / 576460752303423488) = Fin (4548635623644201 /
    4503599627370496)"
proof -
  have "round_double (582225359826457723 / 576460752303423488) = Fin (of_int 4548635623644201 * 2
      powi (0 - 52))"
    by (rule round_double_near) simp_all
  then show ?thesis by simp
qed

lemma one_month_4: "round_double (4548635623644201 / 4503599627370496) = Fin (4548635623644201 /
    4503599627370496)"
proof -
  have "round_double (4548635623644201 / 4503599627370496) = Fin (of_int 4548635623644201 * 2 powi
      (0 - 52))"
    by (rule round_double_near) simp_all
  then show ?thesis by simp
qed

lemma one_month_5: "round_double (720575940379279375 / 72057594037927936) = Fin 10"
proof -
  have "round_double (720575940379279375 / 72057594037927936) = Fin (of_int 5629499534213120 * 2
      powi (3 - 52))"
    by (rule round_double_near) simp_all
  then show ?thesis by simp
qed

lemma one_month_6: "round_double (22743178118221005 / 2251799813685248) = Fin (5685794529555251 /
    562949953421312)"
proof -
  have "round_double (22743178118221005 / 2251799813685248) = Fin (of_int 5685794529555251 * 2 powi
      (3 - 52))"
    by (rule round_double_near) simp_all
  then show ?thesis by simp
qed

lemma one_month_7: "round_double (45035996273705 / 4503599627370496) = Fin (45035996273705 /
    4503599627370496)"
proof -
  have "round_double (45035996273705 / 4503599627370496) = Fin (of_int 5764607523034240 * 2 powi (-7
      - 52))"
    by (rule round_double_near) simp_all
  then show ?thesis by simp
qed

lemma one_month_8: "round_double (45486356236442008 / 45035996273705) = Fin (1110506744053759 /
    1099511627776)"
proof -
  have "round_double (45486356236442008 / 45035996273705) = Fin (of_int 8884053952430072 * 2 powi (9
      - 52))"
    by (rule round_double_near) simp_all
  then show ?thesis by simp
qed

lemma one_month_9: "round_double (1099511627775999 / 1099511627776) = Fin (1099511627775999 /
    1099511627776)"
proof -
  have "round_double (1099511627775999 / 1099511627776) = Fin (of_int 8796093022207992 * 2 powi (9 -
      52))"
    by (rule round_double_near) simp_all
  then show ?thesis by simp
qed

lemma one_month_10: "round_double (1 / 1099511627776) = Fin (1 / 1099511627776)"
proof -
  have "round_double (1 / 1099511627776) = Fin (of_int 4503599627370496 * 2 powi (-40 - 52))"
    by (rule round_double_near) simp_all
  then show ?thesis by simp
qed

lemma one_month_11: "round_double (1110506744053759 / 1099511627776) = Fin (1110506744053759 /
    1099511627776)"
proof -
  have "round_double (1110506744053759 / 1099511627776) = Fin (of_int 8884053952430072 * 2 powi (9 -
      52))"
    by (rule round_double_near) simp_all
  then show ?thesis by simp
qed

lemma one_month_12: "round_double (10995116277759 / 1099511627776) = Fin (10995116277759 /
    1099511627776)"
proof -
  have "round_double (10995116277759 / 1099511627776) = Fin (of_int 5629499534212608 * 2 powi (3 -
      52))"
    by (rule round_double_near) simp_all
  then show ?thesis by simp
qed

lemma one_month_13: "pwr binary64 (4548635623644201 / 4503599627370496) 1 = Fin (4548635623644201 /
    4503599627370496)"
proof -
  have e: "real_power (4548635623644201 / 4503599627370496) 1 = 4548635623644201 / 4503599627370496"
    by (simp add: real_power_def is_integer_def power_divide)
  show ?thesis
    unfolding pwr_binary64 e by (simp add: round_double_numeral round_double_1 one_month_1
        one_month_2 one_month_3 one_month_4 one_month_5 one_month_6 one_month_7 one_month_8
        one_month_9 one_month_10 one_month_11 one_month_12)
qed

lemma example_one_month_rate:
  "monthlyRate_of binary64 (Fin 12) = Fin (5764607523034235 / 576460752303423488)"
  by (simp add: monthlyRate_of_def round_double_0 round_double_1 round_double_numeral
      round_double_tiny rnd_binary64 one_month_1 one_month_2 one_month_3 one_month_4 one_month_5
      one_month_6 one_month_7 one_month_8 one_month_9 one_month_10 one_month_11 one_month_12)

lemma example_one_month:
  "calculateLoan binary64 (Fin 1000) (Fin 12) (Fin 1) s =
     Some (s\<lparr>paymentSchedule :=
      [\<lparr>paymentNumber = Fin 1, paymentAmount = Fin (1110506744053759 / 1099511627776),
        principalAmount = Fin (1099511627775999 / 1099511627776),
        interestAmount = Fin 10,
        remainingBalance = Fin (1 / 1099511627776)\<rparr>],
      loanSummary := Some
        \<lparr>monthlyPayment = Fin (1110506744053759 / 1099511627776),
          totalPayments = Fin (1110506744053759 / 1099511627776),
          totalInterest = Fin (10995116277759 / 1099511627776),
          totalAmount = Fin (1110506744053759 / 1099511627776)\<rparr>\<rparr>)"
proof -
  have acc: "\<not> rejected (Fin 1000) (Fin 12) (Fin (real (1::nat)))"
    by (simp add: rejected_def js_le_def)
  have cnt: "counts binary64 1"
    by (rule binary64_counts) simp
  have rate: "monthlyRate_of binary64 (Fin 12) = Fin (5764607523034235 / 576460752303423488)"
    using example_one_month_rate by simp
  have pay: "monthlyPayment_of binary64 (Fin 1000) (Fin (5764607523034235 / 576460752303423488))
      (Fin (real (1::nat))) = Fin (1110506744053759 / 1099511627776)"
    by (simp add: monthlyPayment_of_def js_sub_def inf_of_sign_def round_double_0 round_double_1
        round_double_numeral round_double_tiny rnd_binary64 one_month_13 one_month_1 one_month_2
        one_month_3 one_month_4 one_month_5 one_month_6 one_month_7 one_month_8 one_month_9
        one_month_10 one_month_11 one_month_12)
  have s1: "step_record binary64 (Fin (5764607523034235 / 576460752303423488)) (Fin
      (1110506744053759 / 1099511627776)) (Fin 1) (Fin 1000) =
      \<lparr>paymentNumber = Fin 1, paymentAmount = Fin (1110506744053759 / 1099511627776),
        principalAmount = Fin (1099511627775999 / 1099511627776),
        interestAmount = Fin 10,
        remainingBalance = Fin (1 / 1099511627776)\<rparr>"
    by (simp add: step_record_def js_sub_def round_double_0 round_double_1 round_double_numeral
        round_double_tiny rnd_binary64 one_month_1 one_month_2 one_month_3 one_month_4 one_month_5
        one_month_6 one_month_7 one_month_8 one_month_9 one_month_10 one_month_11 one_month_12)
  have loop: "spec_schedule binary64 (Fin (5764607523034235 / 576460752303423488)) (Fin
      (1110506744053759 / 1099511627776)) 1 1 (Fin 1000) =
      [\<lparr>paymentNumber = Fin 1, paymentAmount = Fin (1110506744053759 / 1099511627776),
        principalAmount = Fin (1099511627775999 / 1099511627776),
        interestAmount = Fin 10,
        remainingBalance = Fin (1 / 1099511627776)\<rparr>]"
    by (simp add: spec_schedule_pos  s1 del: spec_schedule.simps(2))
  have total: "js_mul binary64 (Fin (1110506744053759 / 1099511627776)) (Fin (real (1::nat))) = Fin
      (1110506744053759 / 1099511627776)"
    by (simp add: round_double_0 round_double_1 round_double_numeral round_double_tiny rnd_binary64
        one_month_1 one_month_2 one_month_3 one_month_4 one_month_5 one_month_6 one_month_7
        one_month_8 one_month_9 one_month_10 one_month_11 one_month_12)
  have interest: "js_sub binary64 (Fin (1110506744053759 / 1099511627776)) (Fin 1000) = Fin
      (10995116277759 / 1099511627776)"
    by (simp add: js_sub_def round_double_0 round_double_1 round_double_numeral round_double_tiny
        rnd_binary64 one_month_1 one_month_2 one_month_3 one_month_4 one_month_5 one_month_6
        one_month_7 one_month_8 one_month_9 one_month_10 one_month_11 one_month_12)
  show ?thesis
    using calculateLoan_returns [OF acc cnt, of s]
    unfolding rate pay loop total interest by simp
qed

lemma early_stop_14: "round_double (33 / 9007199254740992) = Fin (33 / 9007199254740992)"
proof -
  have "round_double (33 / 9007199254740992) = Fin (of_int 4644337115725824 * 2 powi (-48 - 52))"
    by (rule round_double_near) simp_all
  then show ?thesis by simp
qed

lemma early_stop_15: "round_double (11 / 36028797018963968) = Fin (11 / 36028797018963968)"
proof -
  have "round_double (11 / 36028797018963968) = Fin (of_int 6192449487634432 * 2 powi (-52 - 52))"
    by (rule round_double_near) simp_all
  then show ?thesis by simp
qed

lemma early_stop_16: "round_double (36028797018963979 / 36028797018963968) = Fin (4503599627370497 /
    4503599627370496)"
proof -
  have "round_double (36028797018963979 / 36028797018963968) = Fin (of_int 4503599627370497 * 2 powi
      (0 - 52))"
    by (rule round_double_near) simp_all
  then show ?thesis by simp
qed

lemma early_stop_17: "round_double (411376139330301875914151628365188871624514055519707961837486081
    / 411376139330301510538742295639337626245683966408394965837152256) = Fin (1125899906842625 /
    1125899906842624)"
proof -
  have "round_double (411376139330301875914151628365188871624514055519707961837486081 /
      411376139330301510538742295639337626245683966408394965837152256) = Fin (of_int
      4503599627370500 * 2 powi (0 - 52))"
    by (rule round_double_near) simp_all
  then show ?thesis by simp
qed

lemma early_stop_18: "round_double (1375 / 4503599627370496) = Fin (1375 / 4503599627370496)"
proof -
  have "round_double (1375 / 4503599627370496) = Fin (of_int 6047313952768000 * 2 powi (-42 - 52))"
    by (rule round_double_near) simp_all
  then show ?thesis by simp
qed

lemma early_stop_19: "round_double (1548112371908609375 / 5070602400912917605986812821504) = Fin
    (6047313952768005 / 19807040628566084398385987584)"
proof -
  have "round_double (1548112371908609375 / 5070602400912917605986812821504) = Fin (of_int
      6047313952768005 * 2 powi (-42 - 52))"
    by (rule round_double_near) simp_all
  then show ?thesis by simp
qed

lemma early_stop_20: "round_double (1 / 1125899906842624) = Fin (1 / 1125899906842624)"
proof -
  have "round_double (1 / 1125899906842624) = Fin (of_int 4503599627370496 * 2 powi (-50 - 52))"
    by (rule round_double_near) simp_all
  then show ?thesis by simp
qed

lemma early_stop_21: "round_double (6047313952768005 / 17592186044416) = Fin (6047313952768005 /
    17592186044416)"
proof -
  have "round_double (6047313952768005 / 17592186044416) = Fin (of_int 6047313952768005 * 2 powi (8
      - 52))"
    by (rule round_double_near) simp_all
  then show ?thesis by simp
qed

lemma early_stop_22: "round_double (1548112371908607905 / 4503599627370496) = Fin (1375 / 4)"
proof -
  have "round_double (1548112371908607905 / 4503599627370496) = Fin (of_int 6047313952768000 * 2
      powi (8 - 52))"
    by (rule round_double_near) simp_all
  then show ?thesis by simp
qed

lemma early_stop_23: "round_double (2625 / 4) = Fin (2625 / 4)"
proof -
  have "round_double (2625 / 4) = Fin (of_int 5772436045824000 * 2 powi (9 - 52))"
    by (rule round_double_near) simp_all
  then show ?thesis by simp
qed

lemma early_stop_24: "round_double (28875 / 144115188075855872) = Fin (28875 / 144115188075855872)"
proof -
  have "round_double (28875 / 144115188075855872) = Fin (of_int 7937099563008000 * 2 powi (-43 -
      52))"
    by (rule round_double_near) simp_all
  then show ?thesis by simp
qed

lemma early_stop_25: "round_double (49539595901075468085 / 144115188075855872) = Fin
    (6047313952768001 / 17592186044416)"
proof -
  have "round_double (49539595901075468085 / 144115188075855872) = Fin (of_int 6047313952768001 * 2
      powi (8 - 52))"
    by (rule round_double_near) simp_all
  then show ?thesis by simp
qed

lemma early_stop_26: "round_double (5497558138879999 / 17592186044416) = Fin (5497558138879999 /
    17592186044416)"
proof -
  have "round_double (5497558138879999 / 17592186044416) = Fin (of_int 5497558138879999 * 2 powi (8
      - 52))"
    by (rule round_double_near) simp_all
  then show ?thesis by simp
qed

lemma early_stop_27: "round_double (60473139527679989 / 633825300114114700748351602688) = Fin
    (7559142440959999 / 79228162514264337593543950336)"
proof -
  have "round_double (60473139527679989 / 633825300114114700748351602688) = Fin (of_int
      7559142440959999 * 2 powi (-44 - 52))"
    by (rule round_double_near) simp_all
  then show ?thesis by simp
qed

lemma early_stop_28: "round_double (27234680864278381006636428820481 /
    79228162514264337593543950336) = Fin (6047313952768003 / 17592186044416)"
proof -
  have "round_double (27234680864278381006636428820481 / 79228162514264337593543950336) = Fin
      (of_int 6047313952768003 * 2 powi (8 - 52))"
    by (rule round_double_near) simp_all
  then show ?thesis by simp
qed

lemma early_stop_29: "round_double (- (137438953472001 / 4398046511104)) = Fin (- (137438953472001 /
    4398046511104))"
proof -
  have "round_double (- (137438953472001 / 4398046511104)) = Fin (of_int (-8796093022208064) * 2
      powi (4 - 52))"
    by (rule round_double_near) simp_all
  then show ?thesis by simp
qed

lemma early_stop_30: "round_double (6047313952768005 / 4398046511104) = Fin (6047313952768005 /
    4398046511104)"
proof -
  have "round_double (6047313952768005 / 4398046511104) = Fin (of_int 6047313952768005 * 2 powi (10
      - 52))"
    by (rule round_double_near) simp_all
  then show ?thesis by simp
qed

lemma early_stop_31: "round_double (1649267441664005 / 4398046511104) = Fin (1649267441664005 /
    4398046511104)"
proof -
  have "round_double (1649267441664005 / 4398046511104) = Fin (of_int 6597069766656020 * 2 powi (8 -
      52))"
    by (rule round_double_near) simp_all
  then show ?thesis by simp
qed

lemma early_stop_32: "pwr binary64 (4503599627370497 / 4503599627370496) 4 = Fin (1125899906842625 /
    1125899906842624)"
proof -
  have e: "real_power (4503599627370497 / 4503599627370496) 4 =
      411376139330301875914151628365188871624514055519707961837486081 /
      411376139330301510538742295639337626245683966408394965837152256"
    by (simp add: real_power_def is_integer_def power_divide)
  show ?thesis
    unfolding pwr_binary64 e by (simp add: round_double_numeral round_double_1 early_stop_14
        early_stop_15 early_stop_16 early_stop_17 early_stop_18 early_stop_19 early_stop_20
        early_stop_21 early_stop_22 early_stop_23 early_stop_24 early_stop_25 early_stop_26
        early_stop_27 early_stop_28 early_stop_29 early_stop_30 early_stop_31)
qed

lemma example_early_stop_rate:
  "monthlyRate_of binary64 (Fin (825 / 2251799813685248)) = Fin (11 / 36028797018963968)"
  by (simp add: monthlyRate_of_def round_double_0 round_double_1 round_double_numeral
      round_double_tiny rnd_binary64 early_stop_14 early_stop_15 early_stop_16 early_stop_17
      early_stop_18 early_stop_19 early_stop_20 early_stop_21 early_stop_22 early_stop_23
      early_stop_24 early_stop_25 early_stop_26 early_stop_27 early_stop_28 early_stop_29
      early_stop_30 early_stop_31)

lemma example_early_stop:
  "calculateLoan binary64 (Fin 1000) (Fin (825 / 2251799813685248)) (Fin 4) s =
     Some (s\<lparr>paymentSchedule :=
      [\<lparr>paymentNumber = Fin 1, paymentAmount = Fin (6047313952768005 / 17592186044416),
        principalAmount = Fin (1375 / 4),
        interestAmount = Fin (1375 / 4503599627370496),
        remainingBalance = Fin (2625 / 4)\<rparr>,
       \<lparr>paymentNumber = Fin 2, paymentAmount = Fin (6047313952768005 / 17592186044416),
        principalAmount = Fin (6047313952768001 / 17592186044416),
        interestAmount = Fin (28875 / 144115188075855872),
        remainingBalance = Fin (5497558138879999 / 17592186044416)\<rparr>,
       \<lparr>paymentNumber = Fin 3, paymentAmount = Fin (6047313952768005 / 17592186044416),
        principalAmount = Fin (6047313952768003 / 17592186044416),
        interestAmount = Fin (7559142440959999 / 79228162514264337593543950336),
        remainingBalance = Fin 0\<rparr>],
      loanSummary := Some
        \<lparr>monthlyPayment = Fin (6047313952768005 / 17592186044416),
          totalPayments = Fin (6047313952768005 / 4398046511104),
          totalInterest = Fin (1649267441664005 / 4398046511104),
          totalAmount = Fin (6047313952768005 / 4398046511104)\<rparr>\<rparr>)"
proof -
  have acc: "\<not> rejected (Fin 1000) (Fin (825 / 2251799813685248)) (Fin (real (4::nat)))"
    by (simp add: rejected_def js_le_def)
  have cnt: "counts binary64 4"
    by (rule binary64_counts) simp
  have rate: "monthlyRate_of binary64 (Fin (825 / 2251799813685248)) = Fin (11 / 36028797018963968)"
    using example_early_stop_rate by simp
  have pay: "monthlyPayment_of binary64 (Fin 1000) (Fin (11 / 36028797018963968)) (Fin (real
      (4::nat))) = Fin (6047313952768005 / 17592186044416)"
    by (simp add: monthlyPayment_of_def js_sub_def inf_of_sign_def round_double_0 round_double_1
        round_double_numeral round_double_tiny rnd_binary64 early_stop_32 early_stop_14
        early_stop_15 early_stop_16 early_stop_17 early_stop_18 early_stop_19 early_stop_20
        early_stop_21 early_stop_22 early_stop_23 early_stop_24 early_stop_25 early_stop_26
        early_stop_27 early_stop_28 early_stop_29 early_stop_30 early_stop_31)
  have s1: "step_record binary64 (Fin (11 / 36028797018963968)) (Fin (6047313952768005 /
      17592186044416)) (Fin 1) (Fin 1000) =
      \<lparr>paymentNumber = Fin 1, paymentAmount = Fin (6047313952768005 / 17592186044416),
        principalAmount = Fin (1375 / 4),
        interestAmount = Fin (1375 / 4503599627370496),
        remainingBalance = Fin (2625 / 4)\<rparr>"
    by (simp add: step_record_def js_sub_def round_double_0 round_double_1 round_double_numeral
        round_double_tiny rnd_binary64 early_stop_14 early_stop_15 early_stop_16 early_stop_17
        early_stop_18 early_stop_19 early_stop_20 early_stop_21 early_stop_22 early_stop_23
        early_stop_24 early_stop_25 early_stop_26 early_stop_27 early_stop_28 early_stop_29
        early_stop_30 early_stop_31)
  have s2: "step_record binary64 (Fin (11 / 36028797018963968)) (Fin (6047313952768005 /
      17592186044416)) (Fin 2) (Fin (2625 / 4)) =
      \<lparr>paymentNumber = Fin 2, paymentAmount = Fin (6047313952768005 / 17592186044416),
        principalAmount = Fin (6047313952768001 / 17592186044416),
        interestAmount = Fin (28875 / 144115188075855872),
        remainingBalance = Fin (5497558138879999 / 17592186044416)\<rparr>"
    by (simp add: step_record_def js_sub_def round_double_0 round_double_1 round_double_numeral
        round_double_tiny rnd_binary64 early_stop_14 early_stop_15 early_stop_16 early_stop_17
        early_stop_18 early_stop_19 early_stop_20 early_stop_21 early_stop_22 early_stop_23
        early_stop_24 early_stop_25 early_stop_26 early_stop_27 early_stop_28 early_stop_29
        early_stop_30 early_stop_31)
  have s3: "step_record binary64 (Fin (11 / 36028797018963968)) (Fin (6047313952768005 /
      17592186044416)) (Fin 3) (Fin (5497558138879999 / 17592186044416)) =
      \<lparr>paymentNumber = Fin 3, paymentAmount = Fin (6047313952768005 / 17592186044416),
        principalAmount = Fin (6047313952768003 / 17592186044416),
        interestAmount = Fin (7559142440959999 / 79228162514264337593543950336),
        remainingBalance = Fin 0\<rparr>"
    by (simp add: step_record_def js_sub_def round_double_0 round_double_1 round_double_numeral
        round_double_tiny rnd_binary64 early_stop_14 early_stop_15 early_stop_16 early_stop_17
        early_stop_18 early_stop_19 early_stop_20 early_stop_21 early_stop_22 early_stop_23
        early_stop_24 early_stop_25 early_stop_26 early_stop_27 early_stop_28 early_stop_29
        early_stop_30 early_stop_31)
  have loop: "spec_schedule binary64 (Fin (11 / 36028797018963968)) (Fin (6047313952768005 /
      17592186044416)) 4 1 (Fin 1000) =
      [\<lparr>paymentNumber = Fin 1, paymentAmount = Fin (6047313952768005 / 17592186044416),
        principalAmount = Fin (1375 / 4),
        interestAmount = Fin (1375 / 4503599627370496),
        remainingBalance = Fin (2625 / 4)\<rparr>,
       \<lparr>paymentNumber = Fin 2, paymentAmount = Fin (6047313952768005 / 17592186044416),
        principalAmount = Fin (6047313952768001 / 17592186044416),
        interestAmount = Fin (28875 / 144115188075855872),
        remainingBalance = Fin (5497558138879999 / 17592186044416)\<rparr>,
       \<lparr>paymentNumber = Fin 3, paymentAmount = Fin (6047313952768005 / 17592186044416),
        principalAmount = Fin (6047313952768003 / 17592186044416),
        interestAmount = Fin (7559142440959999 / 79228162514264337593543950336),
        remainingBalance = Fin 0\<rparr>]"
    by (simp add: spec_schedule_pos  s1 s2 s3 del: spec_schedule.simps(2))
  have total: "js_mul binary64 (Fin (6047313952768005 / 17592186044416)) (Fin (real (4::nat))) = Fin
      (6047313952768005 / 4398046511104)"
    by (simp add: round_double_0 round_double_1 round_double_numeral round_double_tiny rnd_binary64
        early_stop_14 early_stop_15 early_stop_16 early_stop_17 early_stop_18 early_stop_19
        early_stop_20 early_stop_21 early_stop_22 early_stop_23 early_stop_24 early_stop_25
        early_stop_26 early_stop_27 early_stop_28 early_stop_29 early_stop_30 early_stop_31)
  have interest: "js_sub binary64 (Fin (6047313952768005 / 4398046511104)) (Fin 1000) = Fin
      (1649267441664005 / 4398046511104)"
    by (simp add: js_sub_def round_double_0 round_double_1 round_double_numeral round_double_tiny
        rnd_binary64 early_stop_14 early_stop_15 early_stop_16 early_stop_17 early_stop_18
        early_stop_19 early_stop_20 early_stop_21 early_stop_22 early_stop_23 early_stop_24
        early_stop_25 early_stop_26 early_stop_27 early_stop_28 early_stop_29 early_stop_30
        early_stop_31)
  show ?thesis
    using calculateLoan_returns [OF acc cnt, of s]
    unfolding rate pay loop total interest by simp
qed

lemma example_smallest_rate_rate:
  "monthlyRate_of binary64 (Fin (1 / 2 ^ 1074)) = Fin 0"
  by (simp add: monthlyRate_of_def round_double_0 round_double_1 round_double_numeral
      round_double_tiny rnd_binary64 )

lemma example_smallest_rate:
  "calculateLoan binary64 (Fin 1200) (Fin (1 / 2 ^ 1074)) (Fin 12) s =
     Some (s\<lparr>paymentSchedule :=
      [\<lparr>paymentNumber = Fin 1, paymentAmount = Fin 100,
        principalAmount = Fin 100,
        interestAmount = Fin 0,
        remainingBalance = Fin 1100\<rparr>,
       \<lparr>paymentNumber = Fin 2, paymentAmount = Fin 100,
        principalAmount = Fin 100,
        interestAmount = Fin 0,
        remainingBalance = Fin 1000\<rparr>,
       \<lparr>paymentNumber = Fin 3, paymentAmount = Fin 100,
        principalAmount = Fin 100,
        interestAmount = Fin 0,
        remainingBalance = Fin 900\<rparr>,
       \<lparr>paymentNumber = Fin 4, paymentAmount = Fin 100,
        principalAmount = Fin 100,
        interestAmount = Fin 0,
        remainingBalance = Fin 800\<rparr>,
       \<lparr>paymentNumber = Fin 5, paymentAmount = Fin 100,
        principalAmount = Fin 100,
        interestAmount = Fin 0,
        remainingBalance = Fin 700\<rparr>,
       \<lparr>paymentNumber = Fin 6, paymentAmount = Fin 100,
        principalAmount = Fin 100,
        interestAmount = Fin 0,
        remainingBalance = Fin 600\<rparr>,
       \<lparr>paymentNumber = Fin 7, paymentAmount = Fin 100,
        principalAmount = Fin 100,
        interestAmount = Fin 0,
        remainingBalance = Fin 500\<rparr>,
       \<lparr>paymentNumber = Fin 8, paymentAmount = Fin 100,
        principalAmount = Fin 100,
        interestAmount = Fin 0,
        remainingBalance = Fin 400\<rparr>,
       \<lparr>paymentNumber = Fin 9, paymentAmount = Fin 100,
        principalAmount = Fin 100,
        interestAmount = Fin 0,
        remainingBalance = Fin 300\<rparr>,
       \<lparr>paymentNumber = Fin 10, paymentAmount = Fin 100,
        principalAmount = Fin 100,
        interestAmount = Fin 0,
        remainingBalance = Fin 200\<rparr>,
       \<lparr>paymentNumber = Fin 11, paymentAmount = Fin 100,
        principalAmount = Fin 100,
        interestAmount = Fin 0,
        remainingBalance = Fin 100\<rparr>,
       \<lparr>paymentNumber = Fin 12, paymentAmount = Fin 100,
        principalAmount = Fin 100,
        interestAmount = Fin 0,
        remainingBalance = Fin 0\<rparr>],
      loanSummary := Some
        \<lparr>monthlyPayment = Fin 100,
          totalPayments = Fin 1200,
          totalInterest = Fin 0,
          totalAmount = Fin 1200\<rparr>\<rparr>)"
proof -
  have acc: "\<not> rejected (Fin 1200) (Fin (1 /
      202402253307310618352495346718917307049556649764142118356901358027430339567995346891960383701437124495187077864316811911389808737385793476867013399940738509921517424276566361364466907742093216341239767678472745068562007483424692698618103355649159556340810056512358769552333414615230502532186327508646006263307707741093494784))
      (Fin (real (12::nat)))"
    by (simp add: rejected_def js_le_def)
  have cnt: "counts binary64 12"
    by (rule binary64_counts) simp
  have rate: "monthlyRate_of binary64 (Fin (1 /
      202402253307310618352495346718917307049556649764142118356901358027430339567995346891960383701437124495187077864316811911389808737385793476867013399940738509921517424276566361364466907742093216341239767678472745068562007483424692698618103355649159556340810056512358769552333414615230502532186327508646006263307707741093494784))
      = Fin 0"
    using example_smallest_rate_rate by simp
  have pay: "monthlyPayment_of binary64 (Fin 1200) (Fin 0) (Fin (real (12::nat))) = Fin 100"
    by (simp add: monthlyPayment_of_def js_sub_def inf_of_sign_def round_double_0 round_double_1
        round_double_numeral round_double_tiny rnd_binary64  )
  have s1: "step_record binary64 (Fin 0) (Fin 100) (Fin 1) (Fin 1200) =
      \<lparr>paymentNumber = Fin 1, paymentAmount = Fin 100,
        principalAmount = Fin 100,
        interestAmount = Fin 0,
        remainingBalance = Fin 1100\<rparr>"
    by (simp add: step_record_def js_sub_def round_double_0 round_double_1 round_double_numeral
        round_double_tiny rnd_binary64 )
  have s2: "step_record binary64 (Fin 0) (Fin 100) (Fin 2) (Fin 1100) =
      \<lparr>paymentNumber = Fin 2, paymentAmount = Fin 100,
        principalAmount = Fin 100,
        interestAmount = Fin 0,
        remainingBalance = Fin 1000\<rparr>"
    by (simp add: step_record_def js_sub_def round_double_0 round_double_1 round_double_numeral
        round_double_tiny rnd_binary64 )
  have s3: "step_record binary64 (Fin 0) (Fin 100) (Fin 3) (Fin 1000) =
      \<lparr>paymentNumber = Fin 3, paymentAmount = Fin 100,
        principalAmount = Fin 100,
        interestAmount = Fin 0,
        remainingBalance = Fin 900\<rparr>"
    by (simp add: step_record_def js_sub_def round_double_0 round_double_1 round_double_numeral
        round_double_tiny rnd_binary64 )
  have s4: "step_record binary64 (Fin 0) (Fin 100) (Fin 4) (Fin 900) =
      \<lparr>paymentNumber = Fin 4, paymentAmount = Fin 100,
        principalAmount = Fin 100,
        interestAmount = Fin 0,
        remainingBalance = Fin 800\<rparr>"
    by (simp add: step_record_def js_sub_def round_double_0 round_double_1 round_double_numeral
        round_double_tiny rnd_binary64 )
  have s5: "step_record binary64 (Fin 0) (Fin 100) (Fin 5) (Fin 800) =
      \<lparr>paymentNumber = Fin 5, paymentAmount = Fin 100,
        principalAmount = Fin 100,
        interestAmount = Fin 0,
        remainingBalance = Fin 700\<rparr>"
    by (simp add: step_record_def js_sub_def round_double_0 round_double_1 round_double_numeral
        round_double_tiny rnd_binary64 )
  have s6: "step_record binary64 (Fin 0) (Fin 100) (Fin 6) (Fin 700) =
      \<lparr>paymentNumber = Fin 6, paymentAmount = Fin 100,
        principalAmount = Fin 100,
        interestAmount = Fin 0,
        remainingBalance = Fin 600\<rparr>"
    by (simp add: step_record_def js_sub_def round_double_0 round_double_1 round_double_numeral
        round_double_tiny rnd_binary64 )
  have s7: "step_record binary64 (Fin 0) (Fin 100) (Fin 7) (Fin 600) =
      \<lparr>paymentNumber = Fin 7, paymentAmount = Fin 100,
        principalAmount = Fin 100,
        interestAmount = Fin 0,
        remainingBalance = Fin 500\<rparr>"
    by (simp add: step_record_def js_sub_def round_double_0 round_double_1 round_double_numeral
        round_double_tiny rnd_binary64 )
  have s8: "step_record binary64 (Fin 0) (Fin 100) (Fin 8) (Fin 500) =
      \<lparr>paymentNumber = Fin 8, paymentAmount = Fin 100,
        principalAmount = Fin 100,
        interestAmount = Fin 0,
        remainingBalance = Fin 400\<rparr>"
    by (simp add: step_record_def js_sub_def round_double_0 round_double_1 round_double_numeral
        round_double_tiny rnd_binary64 )
  have s9: "step_record binary64 (Fin 0) (Fin 100) (Fin 9) (Fin 400) =
      \<lparr>paymentNumber = Fin 9, paymentAmount = Fin 100,
        principalAmount = Fin 100,
        interestAmount = Fin 0,
        remainingBalance = Fin 300\<rparr>"
    by (simp add: step_record_def js_sub_def round_double_0 round_double_1 round_double_numeral
        round_double_tiny rnd_binary64 )
  have s10: "step_record binary64 (Fin 0) (Fin 100) (Fin 10) (Fin 300) =
      \<lparr>paymentNumber = Fin 10, paymentAmount = Fin 100,
        principalAmount = Fin 100,
        interestAmount = Fin 0,
        remainingBalance = Fin 200\<rparr>"
    by (simp add: step_record_def js_sub_def round_double_0 round_double_1 round_double_numeral
        round_double_tiny rnd_binary64 )
  have s11: "step_record binary64 (Fin 0) (Fin 100) (Fin 11) (Fin 200) =
      \<lparr>paymentNumber = Fin 11, paymentAmount = Fin 100,
        principalAmount = Fin 100,
        interestAmount = Fin 0,
        remainingBalance = Fin 100\<rparr>"
    by (simp add: step_record_def js_sub_def round_double_0 round_double_1 round_double_numeral
        round_double_tiny rnd_binary64 )
  have s12: "step_record binary64 (Fin 0) (Fin 100) (Fin 12) (Fin 100) =
      \<lparr>paymentNumber = Fin 12, paymentAmount = Fin 100,
        principalAmount = Fin 100,
        interestAmount = Fin 0,
        remainingBalance = Fin 0\<rparr>"
    by (simp add: step_record_def js_sub_def round_double_0 round_double_1 round_double_numeral
        round_double_tiny rnd_binary64 )
  have loop: "spec_schedule binary64 (Fin 0) (Fin 100) 12 1 (Fin 1200) =
      [\<lparr>paymentNumber = Fin 1, paymentAmount = Fin 100,
        principalAmount = Fin 100,
        interestAmount = Fin 0,
        remainingBalance = Fin 1100\<rparr>,
       \<lparr>paymentNumber = Fin 2, paymentAmount = Fin 100,
        principalAmount = Fin 100,
        interestAmount = Fin 0,
        remainingBalance = Fin 1000\<rparr>,
       \<lparr>paymentNumber = Fin 3, paymentAmount = Fin 100,
        principalAmount = Fin 100,
        interestAmount = Fin 0,
        remainingBalance = Fin 900\<rparr>,
       \<lparr>paymentNumber = Fin 4, paymentAmount = Fin 100,
        principalAmount = Fin 100,
        interestAmount = Fin 0,
        remainingBalance = Fin 800\<rparr>,
       \<lparr>paymentNumber = Fin 5, paymentAmount = Fin 100,
        principalAmount = Fin 100,
        interestAmount = Fin 0,
        remainingBalance = Fin 700\<rparr>,
       \<lparr>paymentNumber = Fin 6, paymentAmount = Fin 100,
        principalAmount = Fin 100,
        interestAmount = Fin 0,
        remainingBalance = Fin 600\<rparr>,
       \<lparr>paymentNumber = Fin 7, paymentAmount = Fin 100,
        principalAmount = Fin 100,
        interestAmount = Fin 0,
        remainingBalance = Fin 500\<rparr>,
       \<lparr>paymentNumber = Fin 8, paymentAmount = Fin 100,
        principalAmount = Fin 100,
        interestAmount = Fin 0,
        remainingBalance = Fin 400\<rparr>,
       \<lparr>paymentNumber = Fin 9, paymentAmount = Fin 100,
        principalAmount = Fin 100,
        interestAmount = Fin 0,
        remainingBalance = Fin 300\<rparr>,
       \<lparr>paymentNumber = Fin 10, paymentAmount = Fin 100,
        principalAmount = Fin 100,
        interestAmount = Fin 0,
        remainingBalance = Fin 200\<rparr>,
       \<lparr>paymentNumber = Fin 11, paymentAmount = Fin 100,
        principalAmount = Fin 100,
        interestAmount = Fin 0,
        remainingBalance = Fin 100\<rparr>,
       \<lparr>paymentNumber = Fin 12, paymentAmount = Fin 100,
        principalAmount = Fin 100,
        interestAmount = Fin 0,
        remainingBalance = Fin 0\<rparr>]"
    by (simp add: spec_schedule_pos  s1 s2 s3 s4 s5 s6 s7 s8 s9 s10 s11 s12 del:
        spec_schedule.simps(2))
  have total: "js_mul binary64 (Fin 100) (Fin (real (12::nat))) = Fin 1200"
    by (simp add: round_double_0 round_double_1 round_double_numeral round_double_tiny rnd_binary64
        )
  have interest: "js_sub binary64 (Fin 1200) (Fin 1200) = Fin 0"
    by (simp add: js_sub_def round_double_0 round_double_1 round_double_numeral round_double_tiny
        rnd_binary64 )
  show ?thesis
    using calculateLoan_returns [OF acc cnt, of s]
    unfolding rate pay loop total interest by simp
qed

lemma rising_balance_33: "round_double (12157665459056928801) = Fin 12157665459056928768"
proof -
  have "round_double (12157665459056928801) = Fin (of_int 5936360087430141 * 2 powi (63 - 52))"
    by (rule round_double_near) simp_all
  then show ?thesis by simp
qed

lemma rising_balance_34: "round_double (170207316426797002752) = Fin 170207316426796990464"
proof -
  have "round_double (170207316426797002752) = Fin (of_int 5194315076501373 * 2 powi (67 - 52))"
    by (rule round_double_near) simp_all
  then show ?thesis by simp
qed

lemma rising_balance_35: "round_double (12157665459056928767) = Fin 12157665459056928768"
proof -
  have "round_double (12157665459056928767) = Fin (of_int 5936360087430141 * 2 powi (63 - 52))"
    by (rule round_double_near) simp_all
  then show ?thesis by simp
qed

lemma rising_balance_36: "round_double (27703013741340656 / 1978786695810047) = Fin
    (7881299347898367 / 562949953421312)"
proof -
  have "round_double (27703013741340656 / 1978786695810047) = Fin (of_int 7881299347898367 * 2 powi
      (3 - 52))"
    by (rule round_double_near) simp_all
  then show ?thesis by simp
qed

lemma rising_balance_37: "round_double (- (1 / 562949953421312)) = Fin (- (1 / 562949953421312))"
proof -
  have "round_double (- (1 / 562949953421312)) = Fin (of_int (-4503599627370496) * 2 powi (-49 -
      52))"
    by (rule round_double_near) simp_all
  then show ?thesis by simp
qed

lemma rising_balance_38: "round_double (3940649673949185 / 562949953421312) = Fin (3940649673949185
    / 562949953421312)"
proof -
  have "round_double (3940649673949185 / 562949953421312) = Fin (of_int 7881299347898370 * 2 powi (2
      - 52))"
    by (rule round_double_near) simp_all
  then show ?thesis by simp
qed

lemma rising_balance_39: "round_double (3940649673949185 / 281474976710656) = Fin (3940649673949185
    / 281474976710656)"
proof -
  have "round_double (3940649673949185 / 281474976710656) = Fin (of_int 7881299347898370 * 2 powi (3
      - 52))"
    by (rule round_double_near) simp_all
  then show ?thesis by simp
qed

lemma rising_balance_40: "round_double (- (3 / 562949953421312)) = Fin (- (3 / 562949953421312))"
proof -
  have "round_double (- (3 / 562949953421312)) = Fin (of_int (-6755399441055744) * 2 powi (-48 -
      52))"
    by (rule round_double_near) simp_all
  then show ?thesis by simp
qed

lemma rising_balance_41: "round_double (985162418487297 / 140737488355328) = Fin (985162418487297 /
    140737488355328)"
proof -
  have "round_double (985162418487297 / 140737488355328) = Fin (of_int 7881299347898376 * 2 powi (2
      - 52))"
    by (rule round_double_near) simp_all
  then show ?thesis by simp
qed

lemma rising_balance_42: "pwr binary64 (3) 40 = Fin 12157665459056928768"
proof -
  have e: "real_power (3) 40 = 12157665459056928801"
    by (simp add: real_power_def is_integer_def power_divide)
  show ?thesis
    unfolding pwr_binary64 e by (simp add: round_double_numeral round_double_1 rising_balance_33
        rising_balance_34 rising_balance_35 rising_balance_36 rising_balance_37 rising_balance_38
        rising_balance_39 rising_balance_40 rising_balance_41)
qed

lemma example_rising_balance:
  "map_option (take 2 \<circ> paymentSchedule)
     (calculateLoan binary64 (Fin 7) (Fin 2400) (Fin 40) s) =
     Some
      [\<lparr>paymentNumber = Fin 1, paymentAmount = Fin (7881299347898367 / 562949953421312),
        principalAmount = Fin (- (1 / 562949953421312)),
        interestAmount = Fin 14,
        remainingBalance = Fin (3940649673949185 / 562949953421312)\<rparr>,
       \<lparr>paymentNumber = Fin 2, paymentAmount = Fin (7881299347898367 / 562949953421312),
        principalAmount = Fin (- (3 / 562949953421312)),
        interestAmount = Fin (3940649673949185 / 281474976710656),
        remainingBalance = Fin (985162418487297 / 140737488355328)\<rparr>]"
proof -
  have acc: "\<not> rejected (Fin 7) (Fin 2400) (Fin (real (40::nat)))"
    by (simp add: rejected_def js_le_def)
  have cnt: "counts binary64 40"
    by (rule binary64_counts) simp
  have rate: "monthlyRate_of binary64 (Fin 2400) = Fin 2"
    by (simp add: monthlyRate_of_def round_double_0 round_double_1 round_double_numeral
        round_double_tiny rnd_binary64 rising_balance_33 rising_balance_34 rising_balance_35
        rising_balance_36 rising_balance_37 rising_balance_38 rising_balance_39 rising_balance_40
        rising_balance_41)
  have pay: "monthlyPayment_of binary64 (Fin 7) (Fin 2) (Fin (real (40::nat))) = Fin
      (7881299347898367 / 562949953421312)"
    by (simp add: monthlyPayment_of_def js_sub_def inf_of_sign_def round_double_0 round_double_1
        round_double_numeral round_double_tiny rnd_binary64 rising_balance_42 rising_balance_33
        rising_balance_34 rising_balance_35 rising_balance_36 rising_balance_37 rising_balance_38
        rising_balance_39 rising_balance_40 rising_balance_41)
  have s1: "step_record binary64 (Fin 2) (Fin (7881299347898367 / 562949953421312)) (Fin 1) (Fin 7)
      =
      \<lparr>paymentNumber = Fin 1, paymentAmount = Fin (7881299347898367 / 562949953421312),
        principalAmount = Fin (- (1 / 562949953421312)),
        interestAmount = Fin 14,
        remainingBalance = Fin (3940649673949185 / 562949953421312)\<rparr>"
    by (simp add: step_record_def js_sub_def round_double_0 round_double_1 round_double_numeral
        round_double_tiny rnd_binary64 rising_balance_33 rising_balance_34 rising_balance_35
        rising_balance_36 rising_balance_37 rising_balance_38 rising_balance_39 rising_balance_40
        rising_balance_41)
  have s2: "step_record binary64 (Fin 2) (Fin (7881299347898367 / 562949953421312)) (Fin 2) (Fin
      (3940649673949185 / 562949953421312)) =
      \<lparr>paymentNumber = Fin 2, paymentAmount = Fin (7881299347898367 / 562949953421312),
        principalAmount = Fin (- (3 / 562949953421312)),
        interestAmount = Fin (3940649673949185 / 281474976710656),
        remainingBalance = Fin (985162418487297 / 140737488355328)\<rparr>"
    by (simp add: step_record_def js_sub_def round_double_0 round_double_1 round_double_numeral
        round_double_tiny rnd_binary64 rising_balance_33 rising_balance_34 rising_balance_35
        rising_balance_36 rising_balance_37 rising_balance_38 rising_balance_39 rising_balance_40
        rising_balance_41)
  show ?thesis
    using calculateLoan_returns [OF acc cnt, of s]
    unfolding rate pay
    by (simp add: spec_schedule_pos [of 40] spec_schedule_pos [of 39]  s1 s2 del:
        spec_schedule.simps(2))
qed

lemma example_overflowing_power:
  "map_option (take 2 \<circ> paymentSchedule)
     (calculateLoan binary64 (Fin 1000) (Fin 1200) (Fin 1024) s) =
     Some
      [\<lparr>paymentNumber = Fin 1, paymentAmount = NaN,
        principalAmount = NaN,
        interestAmount = Fin 1000,
        remainingBalance = NaN\<rparr>,
       \<lparr>paymentNumber = Fin 2, paymentAmount = NaN,
        principalAmount = NaN,
        interestAmount = NaN,
        remainingBalance = NaN\<rparr>]"
proof -
  have acc: "\<not> rejected (Fin 1000) (Fin 1200) (Fin (real (1024::nat)))"
    by (simp add: rejected_def js_le_def)
  have cnt: "counts binary64 1024"
    by (rule binary64_counts) simp
  have rate: "monthlyRate_of binary64 (Fin 1200) = Fin 1"
    by (simp add: monthlyRate_of_def round_double_0 round_double_1 round_double_numeral
        round_double_tiny rnd_binary64 )
  have pay: "monthlyPayment_of binary64 (Fin 1000) (Fin 1) (Fin (real (1024::nat))) = NaN"
    by (simp add: monthlyPayment_of_def js_sub_def inf_of_sign_def round_double_0 round_double_1
        round_double_numeral round_double_tiny rnd_binary64 pwr_binary64_overflow )
  have s1: "step_record binary64 (Fin 1) (NaN) (Fin 1) (Fin 1000) =
      \<lparr>paymentNumber = Fin 1, paymentAmount = NaN,
        principalAmount = NaN,
        interestAmount = Fin 1000,
        remainingBalance = NaN\<rparr>"
    by (simp add: step_record_def js_sub_def round_double_0 round_double_1 round_double_numeral
        round_double_tiny rnd_binary64 )
  have s2: "step_record binary64 (Fin 1) (NaN) (Fin 2) (NaN) =
      \<lparr>paymentNumber = Fin 2, paymentAmount = NaN,
        principalAmount = NaN,
        interestAmount = NaN,
        remainingBalance = NaN\<rparr>"
    by (simp add: step_record_def js_sub_def round_double_0 round_double_1 round_double_numeral
        round_double_tiny rnd_binary64 )
  show ?thesis
    using calculateLoan_returns [OF acc cnt, of s]
    unfolding rate pay
    by (simp add: spec_schedule_pos [of 1024] spec_schedule_pos [of 1023]  s1 s2 del:
        spec_schedule.simps(2))
qed


text \<open>
  What the zero-rate branch of the payment computes, \<^verbatim>\<open>principal / months\<close>, and what the
  loop makes of it, for 1200 over 12 months: a payment of 100, and 12 records of 100 without
  interest.
\<close>

lemma zero_rate_branch_is_straight_line:
  "monthlyPayment_of binary64 (Fin 1200) (Fin 0) (Fin 12) = Fin 100 \<and>
   map_option (map (\<lambda>x. (paymentAmount x, interestAmount x)))
     (schedule_loop binary64 (Fin 12) (Fin 0) (Fin 100) (Fin 1) (Fin 1200) []) =
     Some (replicate 12 (Fin 100, Fin 0))"
proof -
  have cnt: "counts binary64 12" by (rule binary64_counts) simp
  have twelve: "replicate 12 x = [x, x, x, x, x, x, x, x, x, x, x, x]" for x :: "jsnum \<times> jsnum"
    by (simp add: numeral_eq_Suc)
  have "map (\<lambda>x. (paymentAmount x, interestAmount x))
      (spec_schedule binary64 (Fin 0) (Fin 100) 12 1 (Fin 1200)) = replicate 12 (Fin 100, Fin 0)"
    unfolding twelve
    by (simp add: spec_schedule_pos step_record_def js_sub_def rnd_binary64 round_double_numeral
        round_double_0
        del: spec_schedule.simps(2))
  with schedule_loop_returns [OF cnt, of "Fin 0" "Fin 100" "Fin 1200"] show ?thesis
    by (simp add: monthlyPayment_of_def rnd_binary64 round_double_numeral)
qed

section \<open>The claims of the specification\<close>

text \<open>
  Claim C1 (at the rate \<open>0\<close> the schedule is not empty, every payment is
  \<open>principal / termMonths\<close> and every interest is \<open>0\<close>; 1200 over 12 months is paid in 12
  records of 100). The code has the branch for it, \<^verbatim>\<open>monthlyRate === 0 ? principal / months\<close>,
  and compares the rate with \<^verbatim>\<open>annualRate < 0\<close> where the other two inputs have \<^verbatim>\<open><= 0\<close>;
  but the guard also tests \<^verbatim>\<open>!annualRate\<close>, which is true of \<open>0\<close>. So, for every arithmetic
  and every earlier state, the call with the input of the claim returns, and what it returns
  has no record and no summary.
\<close>

theorem zero_rate_is_rejected:
  "map_option is_empty (calculateLoan ar (Fin 1200) (Fin 0) (Fin 12) s) = Some True"
  by (simp add: calculateLoan_rejected rejected_def is_empty_def)







text \<open>
  Claim C4 (for every valid input the summary has \<open>totalPayments = monthlyPayment *
  termMonths\<close>, \<open>totalInterest = totalPayments - principal\<close> and \<open>totalAmount =
  totalPayments\<close>), at 1200 over 12 months at the rate \<open>0\<close>: the input is valid, and the call
  returns no summary at all, for every arithmetic. This is the guard of claim C1 again. For
  an input that the guard accepts and a term to which the arithmetic counts, the summary
  exists and has the three values of the claim, whatever the length of the schedule
  (\<open>summary_is_nominal\<close>, \<open>example_early_stop\<close>).
\<close>

theorem zero_rate_has_no_summary:
  "spec_valid (Fin 1200) (Fin 0) (Fin 12) \<and>
   map_option loanSummary (calculateLoan ar (Fin 1200) (Fin 0) (Fin 12) s) = Some None"
  by (simp add: calculateLoan_rejected rejected_def spec_valid_def is_integer_def)



text \<open>
  Claim C6 (the balance is non-increasing, at least \<open>0\<close>, and \<open>0\<close> in the last record), in
  binary64, at three valid inputs.

  \<^item> 1000 at 12% over 1 month: the one balance is \<open>2^-40\<close>, not \<open>0\<close>. The code has no last
    payment that takes up what rounding has left.
  \<^item> 7 at 2400% over 40 months: the second balance is greater than the first. The payment
    is rounded below the first interest, so that the principal parts are negative.
  \<^item> 1000 at 1200% over 1024 months: \<open>2^1024\<close> overflows, the payment is
    \<open>Infinity / Infinity\<close>, and every balance is \<open>NaN\<close>, which is not \<^verbatim>\<open>>= 0\<close>.
\<close>

theorem balance_not_retired:
  "spec_valid (Fin 1000) (Fin 12) (Fin 1) \<and>
   map_option (map remainingBalance \<circ> paymentSchedule)
     (calculateLoan binary64 (Fin 1000) (Fin 12) (Fin 1) initial) = Some [Fin (1 / 2 ^ 40)] \<and>
   \<not> js_eq (Fin (1 / 2 ^ 40)) (Fin 0) \<and>
   spec_valid (Fin 7) (Fin 2400) (Fin 40) \<and>
   map_option (map remainingBalance \<circ> (take 2 \<circ> paymentSchedule))
     (calculateLoan binary64 (Fin 7) (Fin 2400) (Fin 40) initial) =
     Some [Fin (3940649673949185 / 562949953421312), Fin (985162418487297 / 140737488355328)] \<and>
   \<not> js_le (Fin (985162418487297 / 140737488355328)) (Fin (3940649673949185 / 562949953421312)) \<and>
   spec_valid (Fin 1000) (Fin 1200) (Fin 1024) \<and>
   map_option (map remainingBalance \<circ> (take 2 \<circ> paymentSchedule))
     (calculateLoan binary64 (Fin 1000) (Fin 1200) (Fin 1024) initial) = Some [NaN, NaN] \<and>
   \<not> js_le (Fin 0) NaN"
proof -
  have "map_option (map remainingBalance)
      (map_option (take 2 \<circ> paymentSchedule)
        (calculateLoan binary64 (Fin 7) (Fin 2400) (Fin 40) initial)) =
      Some [Fin (3940649673949185 / 562949953421312), Fin (985162418487297 / 140737488355328)]"
    unfolding example_rising_balance by simp
  moreover have "map_option (map remainingBalance)
      (map_option (take 2 \<circ> paymentSchedule)
        (calculateLoan binary64 (Fin 1000) (Fin 1200) (Fin 1024) initial)) = Some [NaN, NaN]"
    unfolding example_overflowing_power by simp
  ultimately show ?thesis
    by (simp add: option.map_comp example_one_month spec_valid_def is_integer_def js_le_def)
qed

text \<open>
  Claim C6 as amended. For every arithmetic, every input and every record of a call that
  returns, the balance of the record is \<open>NaN\<close> or at least \<open>0\<close>: this is \<^verbatim>\<open>Math.max(0, _)\<close>.
  In exact arithmetic, for a positive principal, a positive annual rate and a positive
  term, the call returns one record per month; the first balance is below the principal,
  every later balance is below the one before it, every balance is at least \<open>0\<close>, and the
  balance of the last record is \<open>0\<close>.
\<close>

theorem balance_clamped_and_retired:
  "(\<forall>e x. calculateLoan ar principal0 annualRate months s = Some e \<longrightarrow>
      x \<in> set (paymentSchedule e) \<longrightarrow>
      remainingBalance x = NaN \<or> js_le (Fin 0) (remainingBalance x)) \<and>
   (0 < p \<longrightarrow> 0 < a \<longrightarrow> 0 < n \<longrightarrow>
      (\<exists>e. calculateLoan exact (Fin p) (Fin a) (Fin (real n)) s = Some e \<and>
         length (paymentSchedule e) = n \<and>
         js_lt (remainingBalance (paymentSchedule e ! 0)) (Fin p) \<and>
         (\<forall>k. Suc k < n \<longrightarrow>
            js_lt (remainingBalance (paymentSchedule e ! Suc k))
              (remainingBalance (paymentSchedule e ! k))) \<and>
         (\<forall>k < n. js_le (Fin 0) (remainingBalance (paymentSchedule e ! k))) \<and>
         js_eq (remainingBalance (last (paymentSchedule e))) (Fin 0)))"
proof (intro conjI allI impI)
  fix e x
  assume "calculateLoan ar principal0 annualRate months s = Some e"
    and "x \<in> set (paymentSchedule e)"
  then show "remainingBalance x = NaN \<or> js_le (Fin 0) (remainingBalance x)"
    by (rule balance_is_clamped)
next
  assume p: "0 < p" and a: "0 < a" and n: "0 < n"
  let ?r = "a / 100 / 12"
  from a have r: "0 < ?r" by simp
  from exact_balances [OF p a n, of s] obtain e
    where e: "calculateLoan exact (Fin p) (Fin a) (Fin (real n)) s = Some e"
      and len: "length (paymentSchedule e) = n"
      and bal: "\<forall>k < n. remainingBalance (paymentSchedule e ! k) =
          Fin (annuity_balance p ?r n (Suc k))"
    by blast
  have first: "js_lt (remainingBalance (paymentSchedule e ! 0)) (Fin p)"
    using bal n annuity_balance_decreasing [OF p r n, of 0] annuity_balance_start [OF r n, of p]
    by simp
  have dec: "js_lt (remainingBalance (paymentSchedule e ! Suc k))
      (remainingBalance (paymentSchedule e ! k))" if "Suc k < n" for k
    using bal that annuity_balance_decreasing [OF p r n, of "Suc k"] by simp
  have nonneg: "js_le (Fin 0) (remainingBalance (paymentSchedule e ! k))" if "k < n" for k
    using bal that annuity_balance_nonneg [OF p r, of "Suc k" n] by (auto simp: js_le_def)
  from len n have "paymentSchedule e \<noteq> []" by auto
  then have "last (paymentSchedule e) = paymentSchedule e ! (n - 1)"
    using len by (simp add: last_conv_nth)
  with bal n have zero: "js_eq (remainingBalance (last (paymentSchedule e))) (Fin 0)"
    by (simp add: annuity_balance_end)
  from e len first dec nonneg zero
  show "\<exists>e. calculateLoan exact (Fin p) (Fin a) (Fin (real n)) s = Some e \<and>
      length (paymentSchedule e) = n \<and>
      js_lt (remainingBalance (paymentSchedule e ! 0)) (Fin p) \<and>
      (\<forall>k. Suc k < n \<longrightarrow>
         js_lt (remainingBalance (paymentSchedule e ! Suc k))
           (remainingBalance (paymentSchedule e ! k))) \<and>
      (\<forall>k < n. js_le (Fin 0) (remainingBalance (paymentSchedule e ! k))) \<and>
      js_eq (remainingBalance (last (paymentSchedule e))) (Fin 0)"
    by blast
qed

theorem balance_clamped_and_retired_witness:
  "(\<exists>e. calculateLoan binary64 (Fin 1000) (Fin (825 / 2 ^ 51)) (Fin 4) initial = Some e \<and>
      paymentSchedule e ! 2 \<in> set (paymentSchedule e) \<and>
      js_sub binary64 (remainingBalance (paymentSchedule e ! 1))
        (principalAmount (paymentSchedule e ! 2)) = Fin (- (137438953472001 / 4398046511104)) \<and>
      js_le (Fin 0) (remainingBalance (paymentSchedule e ! 2))) \<and>
   (0::real) < 300 \<and> (0::real) < 1200 \<and> (0::nat) < 2 \<and>
   (\<exists>e. calculateLoan exact (Fin 300) (Fin 1200) (Fin 2) initial = Some e \<and>
      map remainingBalance (paymentSchedule e) = [Fin 200, Fin 0] \<and>
      js_lt (remainingBalance (paymentSchedule e ! 0)) (Fin 300) \<and>
      js_lt (remainingBalance (paymentSchedule e ! 1)) (remainingBalance (paymentSchedule e ! 0)) \<and>
      js_eq (remainingBalance (last (paymentSchedule e))) (Fin 0))"
proof -
  let ?e = "initial\<lparr>paymentSchedule :=
      [\<lparr>paymentNumber = Fin 1, paymentAmount = Fin (6047313952768005 / 17592186044416),
        principalAmount = Fin (1375 / 4),
        interestAmount = Fin (1375 / 4503599627370496),
        remainingBalance = Fin (2625 / 4)\<rparr>,
       \<lparr>paymentNumber = Fin 2, paymentAmount = Fin (6047313952768005 / 17592186044416),
        principalAmount = Fin (6047313952768001 / 17592186044416),
        interestAmount = Fin (28875 / 144115188075855872),
        remainingBalance = Fin (5497558138879999 / 17592186044416)\<rparr>,
       \<lparr>paymentNumber = Fin 3, paymentAmount = Fin (6047313952768005 / 17592186044416),
        principalAmount = Fin (6047313952768003 / 17592186044416),
        interestAmount = Fin (7559142440959999 / 79228162514264337593543950336),
        remainingBalance = Fin 0\<rparr>],
      loanSummary := Some
        \<lparr>monthlyPayment = Fin (6047313952768005 / 17592186044416),
          totalPayments = Fin (6047313952768005 / 4398046511104),
          totalInterest = Fin (1649267441664005 / 4398046511104),
          totalAmount = Fin (6047313952768005 / 4398046511104)\<rparr>\<rparr>"
  let ?x = "\<lparr>paymentNumber = Fin 3, paymentAmount = Fin (6047313952768005 / 17592186044416),
        principalAmount = Fin (6047313952768003 / 17592186044416),
        interestAmount = Fin (7559142440959999 / 79228162514264337593543950336),
        remainingBalance = Fin 0\<rparr>"
  have e: "calculateLoan binary64 (Fin 1000) (Fin (825 / 2 ^ 51)) (Fin 4) initial = Some ?e"
    using example_early_stop [of initial] by simp
  have x: "?x \<in> set (paymentSchedule ?e)" by simp
  note t = balance_clamped_and_retired
    [of binary64 "Fin 1000" "Fin (825 / 2 ^ 51)" "Fin 4" initial 300 1200 2]
  from t e x have clamp: "remainingBalance ?x = NaN \<or> js_le (Fin 0) (remainingBalance ?x)"
    by blast
  have raw: "js_sub binary64 (Fin (5497558138879999 / 17592186044416))
      (Fin (6047313952768003 / 17592186044416)) = Fin (- (137438953472001 / 4398046511104))"
    by (simp add: js_sub_def rnd_binary64 early_stop_29)
  have "(0::real) < 300" and "(0::real) < 1200" and "(0::nat) < 2" by simp_all
  with t obtain f
    where f: "calculateLoan exact (Fin 300) (Fin 1200) (Fin (real (2::nat))) initial = Some f"
      and "js_lt (remainingBalance (paymentSchedule f ! 0)) (Fin 300)"
      and "\<forall>k. Suc k < 2 \<longrightarrow>
         js_lt (remainingBalance (paymentSchedule f ! Suc k))
           (remainingBalance (paymentSchedule f ! k))"
      and "js_eq (remainingBalance (last (paymentSchedule f))) (Fin 0)"
    by blast
  with clamp raw show ?thesis
    unfolding e by (auto simp: example_exact)
qed

text \<open>
  Claim C7 (for every valid input the schedule has at most \<open>termMonths\<close> records, numbered
  \<open>1, 2, \<dots>\<close> by position, and is shorter than \<open>termMonths\<close> only when its last record has
  the balance \<open>0\<close>), at 1200 over 12 months at the rate \<open>0\<close>: the input is valid, and the
  schedule is empty, shorter than 12 without a record of balance \<open>0\<close>, for every arithmetic.
  This is the guard of claim C1 again. For an input that the guard accepts and a term to
  which the arithmetic counts, the schedule has the shape of the claim (\<open>schedule_shape\<close>).
\<close>

theorem zero_rate_has_no_record:
  "spec_valid (Fin 1200) (Fin 0) (Fin 12) \<and>
   map_option paymentSchedule (calculateLoan ar (Fin 1200) (Fin 0) (Fin 12) s) = Some []"
  by (simp add: calculateLoan_rejected rejected_def spec_valid_def is_integer_def)



text \<open>
  Claim C9 (determinism and idempotence): the result is a function of the three inputs
  alone. The state that an earlier call left behind has no influence on it, neither on
  whether the call returns nor on what it returns; and a second call with the same inputs
  on the state that the first call made leaves that state as it is.
\<close>

theorem calculateLoan_stateless:
  "calculateLoan ar principal0 annualRate months s =
   calculateLoan ar principal0 annualRate months s' \<and>
   Option.bind (calculateLoan ar principal0 annualRate months s)
     (calculateLoan ar principal0 annualRate months) =
   calculateLoan ar principal0 annualRate months s"
proof -
  have indep: "calculateLoan ar principal0 annualRate months t =
      calculateLoan ar principal0 annualRate months t'" for t t'
    by (cases t; cases t') (simp add: calculateLoan_def Let_def split: option.split)
  have "Option.bind (calculateLoan ar principal0 annualRate months s)
      (calculateLoan ar principal0 annualRate months) =
      calculateLoan ar principal0 annualRate months s"
  proof (cases "calculateLoan ar principal0 annualRate months s")
    case None
    then show ?thesis by simp
  next
    case (Some e)
    with indep [of e s] show ?thesis by simp
  qed
  with indep [of s s'] show ?thesis by simp
qed

text \<open>
  Claim C10 (no input that passes the guard reaches the zero-rate branch of the payment),
  in binary64 at the annual rate \<open>2^-1074\<close>, the least positive number (\<^verbatim>\<open>5e-324\<close>), for
  1200 over 12 months. The input is valid and passes the guard; \<open>2^-1074 / 100\<close> rounds to
  \<open>0\<close>, so \<^verbatim>\<open>monthlyRate === 0\<close> holds, the payment is \<open>1200 / 12\<close>, and the schedule has 12
  records of 100.
\<close>

theorem zero_rate_branch_reached:
  "spec_valid (Fin 1200) (Fin (1 / 2 ^ 1074)) (Fin 12) \<and>
   \<not> rejected (Fin 1200) (Fin (1 / 2 ^ 1074)) (Fin 12) \<and>
   js_eq (monthlyRate_of binary64 (Fin (1 / 2 ^ 1074))) (Fin 0) \<and>
   map_option (map paymentAmount \<circ> paymentSchedule)
     (calculateLoan binary64 (Fin 1200) (Fin (1 / 2 ^ 1074)) (Fin 12) initial) =
     Some (replicate 12 (Fin 100))"
proof -
  have twelve: "replicate 12 x = [x, x, x, x, x, x, x, x, x, x, x, x]" for x :: jsnum
    by (simp add: numeral_eq_Suc)
  show ?thesis
    unfolding example_smallest_rate example_smallest_rate_rate twelve
    by (simp add: spec_valid_def is_integer_def rejected_def js_le_def)
qed

text \<open>
  Claim C10 as amended: the guard rejects the annual rate \<open>0\<close>, whatever the other inputs;
  in an arithmetic that never rounds a number other than \<open>0\<close> to \<open>0\<close>, as exact arithmetic
  is, the monthly rate of an accepted input is not \<open>0\<close>; and in binary64 the monthly rate of
  an accepted input is not \<open>0\<close> when the annual rate is at least \<open>2^-1000\<close>. So the zero-rate
  branch is reached only when the division of the rate underflows.
\<close>

theorem zero_rate_branch_needs_underflow:
  "rejected principal0 (Fin 0) months \<and>
   ((\<forall>x. x \<noteq> 0 \<longrightarrow> rnd ar x \<noteq> Fin 0) \<longrightarrow> \<not> rejected principal0 annualRate months \<longrightarrow>
      \<not> js_eq (monthlyRate_of ar annualRate) (Fin 0)) \<and>
   (\<not> rejected principal0 annualRate months \<longrightarrow> js_le (Fin (2 powi (- 1000))) annualRate \<longrightarrow>
      \<not> js_eq (monthlyRate_of binary64 annualRate) (Fin 0))"
proof (intro conjI impI)
  show "rejected principal0 (Fin 0) months" by (simp add: rejected_def)
next
  assume nz: "\<forall>x. x \<noteq> 0 \<longrightarrow> rnd ar x \<noteq> Fin 0"
    and acc: "\<not> rejected principal0 annualRate months"
  from acc have pos: "js_positive annualRate" by (simp add: rejected_iff)
  show "\<not> js_eq (monthlyRate_of ar annualRate) (Fin 0)"
  proof (cases annualRate)
    case (Fin a)
    with pos have "a / 100 \<noteq> 0" by simp
    with nz have v: "rnd ar (a / 100) \<noteq> Fin 0" by blast
    show ?thesis
    proof (cases "rnd ar (a / 100)")
      case (Fin v)
      with \<open>rnd ar (a / 100) \<noteq> Fin 0\<close> have "v / 12 \<noteq> 0" by simp
      with nz have "rnd ar (v / 12) \<noteq> Fin 0" by blast
      then have "\<not> js_eq (rnd ar (v / 12)) (Fin 0)" by (cases "rnd ar (v / 12)") auto
      with Fin \<open>annualRate = Fin a\<close> show ?thesis by (simp add: monthlyRate_of_def)
    qed (use \<open>annualRate = Fin a\<close> in \<open>simp_all add: monthlyRate_of_def inf_of_sign_def\<close>)
  qed (use pos in \<open>simp_all add: monthlyRate_of_def inf_of_sign_def\<close>)
next
  assume acc: "\<not> rejected principal0 annualRate months"
    and big: "js_le (Fin (2 powi (- 1000))) annualRate"
  show "\<not> js_eq (monthlyRate_of binary64 annualRate) (Fin 0)"
  proof (cases annualRate)
    case (Fin a)
    with big have a: "2 powi (- 1000) \<le> a" by (auto simp: js_le_def)
    have "(2::real) powi (- 1022) \<le> 2 powi (- 1000) / 100" by simp
    also from a have "\<dots> \<le> a / 100" by (simp add: divide_right_mono)
    finally have lo: "2 powi (- 1022) \<le> a / 100" .
    from round_double_lower [OF lo]
    show ?thesis
    proof
      assume "round_double (a / 100) = PInf"
      with Fin show ?thesis by (simp add: monthlyRate_of_def rnd_binary64 inf_of_sign_def)
    next
      assume "\<exists>v. round_double (a / 100) = Fin v \<and> a / 100 / 2 \<le> v"
      then obtain v where v: "round_double (a / 100) = Fin v" and le: "a / 100 / 2 \<le> v"
        by blast
      have "(2::real) powi (- 1074) \<le> 2 powi (- 1000) / 100 / 2 / 12" by simp
      also from a have "\<dots> \<le> a / 100 / 2 / 12" by (simp add: divide_right_mono)
      also from le have "\<dots> \<le> v / 12" by (simp add: divide_right_mono)
      finally have "2 powi (- 1074) \<le> v / 12" .
      moreover have "(0::real) < 2 powi (- 1074)" by simp
      ultimately have "2 powi (- 1074) \<le> \<bar>v / 12\<bar>" by linarith
      then have "round_double (v / 12) \<noteq> Fin 0" by (rule round_double_nonzero)
      then have "\<not> js_eq (round_double (v / 12)) (Fin 0)"
        by (cases "round_double (v / 12)") auto
      with Fin v show ?thesis by (simp add: monthlyRate_of_def rnd_binary64)
    qed
  qed (use big in \<open>simp_all add: monthlyRate_of_def inf_of_sign_def js_le_def\<close>)
qed

theorem zero_rate_branch_needs_underflow_witness:
  "rejected (Fin 1200) (Fin 0) (Fin 12) \<and>
   \<not> rejected (Fin 1200) (Fin 5) (Fin 12) \<and> js_le (Fin (2 powi (- 1000))) (Fin 5) \<and>
   \<not> js_eq (monthlyRate_of exact (Fin 5)) (Fin 0) \<and>
   \<not> js_eq (monthlyRate_of binary64 (Fin 5)) (Fin 0)"
proof -
  have acc: "\<not> rejected (Fin 1200) (Fin 5) (Fin 12)" by (simp add: rejected_def js_le_def)
  have big: "js_le (Fin (2 powi (- 1000))) (Fin 5)" by (simp add: js_le_def)
  have nz: "\<forall>x. x \<noteq> 0 \<longrightarrow> rnd exact x \<noteq> Fin 0" by (simp add: rnd_exact)
  from zero_rate_branch_needs_underflow [of "Fin 1200" "Fin 12" exact "Fin 5"] acc big nz
  show ?thesis by blast
qed

end
